theory Spec2Isabelle
  imports Main "HOL-Library.Multiset" "HOL-Library.Word"
begin

section \<open>Go strings\<close>

text \<open>
  A Go string is a byte sequence: \<^typ>\<open>string\<close>.  The functions of package
  \<^verbatim>\<open>strings\<close> that the server calls are written out.  Every call of
  \<^verbatim>\<open>strings.Split\<close> in the sources passes a one-byte separator, so the separator is a
  \<^typ>\<open>char\<close>.  \<^verbatim>\<open>strings.TrimSpace\<close> is modelled on ASCII text (the six ASCII
  white-space bytes); the multi-byte Unicode spaces it also trims do not occur in the
  inputs the theorems below are about.
\<close>

fun strings_Split :: "string \<Rightarrow> char \<Rightarrow> string list" where
  "strings_Split [] sep = [[]]"
| "strings_Split (c # cs) sep =
     (if c = sep then [] # strings_Split cs sep
      else (case strings_Split cs sep of
              [] \<Rightarrow> [[c]]
            | p # ps \<Rightarrow> (c # p) # ps))"

definition asciiSpace :: "char \<Rightarrow> bool" where
  "asciiSpace c = (c = CHR 0x09 \<or> c = CHR 0x0A \<or> c = CHR 0x0B \<or> c = CHR 0x0C
                   \<or> c = CHR 0x0D \<or> c = CHR 0x20)"

definition strings_TrimSpace :: "string \<Rightarrow> string" where
  "strings_TrimSpace s = rev (dropWhile asciiSpace (rev (dropWhile asciiSpace s)))"

definition strings_TrimPrefix :: "string \<Rightarrow> string \<Rightarrow> string" where
  "strings_TrimPrefix s p = (if take (length p) s = p then drop (length p) s else s)"

definition strings_TrimSuffix :: "string \<Rightarrow> string \<Rightarrow> string" where
  "strings_TrimSuffix s p =
     (if length p \<le> length s \<and> drop (length s - length p) s = p
      then take (length s - length p) s else s)"

section \<open>HTTP\<close>

text \<open>
  A payload is opaque to the server except where \<^verbatim>\<open>json.Unmarshal\<close> reads it.  The
  lexical layer of JSON is abstracted: a payload is either bytes that are not a JSON
  text, or a JSON text, given by the value it denotes.
\<close>

datatype json =
    JNull
  | JBool bool
  | JNumber int
  | JFloat string
  | JString string
  | JArray "json list"
  | JObject "(string \<times> json) list"

datatype body = Malformed string | Doc json

definition noBody :: body where
  "noBody = Malformed []"

type_synonym header = "(string \<times> string) list"

definition Header_Add :: "header \<Rightarrow> string \<Rightarrow> string \<Rightarrow> header" where
  "Header_Add h k v = h @ [(k, v)]"

definition Header_Get :: "header \<Rightarrow> string \<Rightarrow> string" where
  "Header_Get h k = (case map_of h k of None \<Rightarrow> [] | Some v \<Rightarrow> v)"

record request =
  Method :: string
  URL :: string
  Header :: header
  Body :: body

record response =
  StatusCode :: nat
  RespHeader :: header
  RespBody :: body

text \<open>
  The world outside the process: which URLs \<^verbatim>\<open>http.NewRequest\<close> rejects, and what
  \<^verbatim>\<open>http.DefaultClient.Do\<close> returns for a request (\<open>Inl\<close> is its error: the
  transport failed; a response of any status is \<open>Inr\<close>).
\<close>

record client =
  NewRequest_err :: "string \<Rightarrow> string \<Rightarrow> string option"
  Do :: "request \<Rightarrow> string + response"

definition http_NewRequest :: "client \<Rightarrow> string \<Rightarrow> string \<Rightarrow> body \<Rightarrow> string + request" where
  "http_NewRequest c m u b =
     (case NewRequest_err c m u of
        Some err \<Rightarrow> Inl err
      | None \<Rightarrow> Inr \<lparr>Method = m, URL = u, Header = [], Body = b\<rparr>)"

text \<open>
  A panic is a value: \<^verbatim>\<open>log.Panicf\<close> with its message, and the two run-time panics
  the code can raise (an index out of range, with the index and the length, and a nil
  pointer dereference).
\<close>

datatype panic = LogPanic string | IndexOutOfRange nat nat | NilDereference

section \<open>http\_utils: PagedGet\<close>

record PagedGet =
  nextLink :: string
  authHdr :: string

definition NewPagedGet :: "string \<Rightarrow> string \<Rightarrow> PagedGet" where
  "NewPagedGet path apiToken =
     \<lparr>nextLink = ''https://api.github.com'' @ path,
      authHdr = (if apiToken \<noteq> [] then ''token '' @ apiToken else [])\<rparr>"

definition rel_next :: string where
  \<open>rel_next = ''rel="next"''\<close>

text \<open>The search for the link to the next page: the loop over \<^verbatim>\<open>linkRels\<close>.\<close>

fun nextPageLink :: "string list \<Rightarrow> panic + string option" where
  "nextPageLink [] = Inr None"
| "nextPageLink (lr # lrs) =
     (let l = strings_Split lr CHR '';'' in
      if length l < 2 then Inl (IndexOutOfRange 1 (length l))
      else if strings_TrimSpace (l ! 1) = rel_next
      then Inr (Some (strings_TrimSuffix
                        (strings_TrimPrefix (strings_TrimSpace (l ! 0)) ''<'') ''>''))
      else nextPageLink lrs)"

text \<open>The request \<^verbatim>\<open>GetPage\<close> sends once \<^verbatim>\<open>http.NewRequest\<close> has accepted the URL.\<close>

definition pageRequest :: "PagedGet \<Rightarrow> request" where
  "pageRequest g =
     \<lparr>Method = ''GET'', URL = nextLink g,
      Header = (if authHdr g \<noteq> []
                then [(''Accept'', ''application/vnd.github.v3+json''),
                      (''Authorization'', authHdr g)]
                else [(''Accept'', ''application/vnd.github.v3+json'')]),
      Body = noBody\<rparr>"

text \<open>
  \<^verbatim>\<open>GetPage\<close> returns the page, whether more pages remain, and the fetcher as the call
  leaves it (the receiver is mutated in place).
\<close>

definition GetPage :: "client \<Rightarrow> PagedGet \<Rightarrow> panic + (body \<times> bool \<times> PagedGet)" where
  "GetPage c g =
     (if nextLink g = [] then Inl (LogPanic ''GetPage beyond page chain.'')
      else case http_NewRequest c ''GET'' (nextLink g) noBody of
        Inl err \<Rightarrow> Inl (LogPanic (''Get request failed '' @ err))
      | Inr req0 \<Rightarrow>
          let req1 = req0\<lparr>Header := Header_Add (Header req0) ''Accept''
                                       ''application/vnd.github.v3+json''\<rparr>;
              req = (if authHdr g \<noteq> []
                     then req1\<lparr>Header := Header_Add (Header req1) ''Authorization'' (authHdr g)\<rparr>
                     else req1)
          in case Do c req of
               Inl err \<Rightarrow>
                 Inl (LogPanic (''Failed to issue http GET on url='' @ nextLink g
                                @ '', err='' @ err))
             | Inr resp \<Rightarrow>
                 let body = RespBody resp;
                     linksRelStr = Header_Get (RespHeader resp) ''Link''
                 in if linksRelStr = [] then Inr (body, False, g)
                    else case nextPageLink (strings_Split linksRelStr CHR '','') of
                           Inl p \<Rightarrow> Inl p
                         | Inr (Some l) \<Rightarrow> Inr (body, True, g\<lparr>nextLink := l\<rparr>)
                         | Inr None \<Rightarrow> Inr (body, False, g))"

text \<open>
  The loop \<^verbatim>\<open>for next { body, next = g.GetPage(); ... }\<close> of
  \<^verbatim>\<open>refreshNetflixRepos\<close>, with what the loop does with a page as the parameter
  \<open>f\<close>.  Nothing bounds the number of pages: a chain of links that never ends keeps
  the loop running, which is the value \<open>None\<close>.
\<close>

partial_function (option) pages ::
  "(body \<Rightarrow> 'a \<Rightarrow> panic + 'a) \<Rightarrow> client \<Rightarrow> PagedGet \<Rightarrow> 'a \<Rightarrow> (panic + 'a) option" where
  "pages f c g acc =
     (case GetPage c g of
        Inl p \<Rightarrow> Some (Inl p)
      | Inr (body, next, g') \<Rightarrow>
          (case f body acc of
             Inl p \<Rightarrow> Some (Inl p)
           | Inr acc' \<Rightarrow> if next then pages f c g' acc' else Some (Inr acc')))"

section \<open>Go library functions the handlers call\<close>

subsection \<open>Decimal text\<close>

definition digitChar :: "nat \<Rightarrow> char" where
  "digitChar d = ''0123456789'' ! d"

function showNat :: "nat \<Rightarrow> string" where
  "showNat n = (if n < 10 then [digitChar n] else showNat (n div 10) @ [digitChar (n mod 10)])"
  by pat_completeness auto
termination
  by (relation "measure id") auto

declare showNat.simps [simp del]

text \<open>\<^verbatim>\<open>fmt.Sprintf("%v", i)\<close> for an \<^verbatim>\<open>int\<close>.\<close>

definition showInt :: "int \<Rightarrow> string" where
  "showInt i = (if i < 0 then CHR ''-'' # showNat (nat (- i)) else showNat (nat i))"

text \<open>
  \<^verbatim>\<open>appendInt\<close> of package \<^verbatim>\<open>time\<close>: the sign, then the digits padded with zeros
  to the width.
\<close>

definition appendInt :: "int \<Rightarrow> nat \<Rightarrow> string" where
  "appendInt x width =
     (if x < 0 then ''-'' else [])
     @ replicate (width - length (showNat (nat \<bar>x\<bar>))) CHR ''0''
     @ showNat (nat \<bar>x\<bar>)"

subsection \<open>strconv.Atoi\<close>

definition digitVal :: "char \<Rightarrow> nat option" where
  "digitVal c =
     map_of [(CHR ''0'', 0), (CHR ''1'', 1), (CHR ''2'', 2), (CHR ''3'', 3), (CHR ''4'', 4),
             (CHR ''5'', 5), (CHR ''6'', 6), (CHR ''7'', 7), (CHR ''8'', 8), (CHR ''9'', 9)] c"

datatype numError = ErrSyntax | ErrRange

text \<open>
  The digits are read from the left: a byte that is no digit is a syntax error, a value
  that leaves 64 unsigned bits a range error, whichever comes first.
\<close>

fun parseDigits :: "nat \<Rightarrow> string \<Rightarrow> numError + nat" where
  "parseDigits n [] = Inr n"
| "parseDigits n (c # cs) =
     (case digitVal c of
        None \<Rightarrow> Inl ErrSyntax
      | Some d \<Rightarrow> if n * 10 + d \<ge> 2 ^ 64 then Inl ErrRange else parseDigits (n * 10 + d) cs)"

text \<open>
  \<^verbatim>\<open>strconv.Atoi\<close> with a 64-bit \<^verbatim>\<open>int\<close>: the value and the error.  The value is 0
  on a syntax error and the nearest \<^verbatim>\<open>int\<close> on a range error.
\<close>

definition Atoi :: "string \<Rightarrow> int \<times> numError option" where
  "Atoi s =
     (let neg = (s \<noteq> [] \<and> hd s = CHR ''-'');
          ds = (if s \<noteq> [] \<and> (hd s = CHR ''-'' \<or> hd s = CHR ''+'') then tl s else s)
      in if ds = [] then (0, Some ErrSyntax)
         else case parseDigits 0 ds of
                Inl ErrSyntax \<Rightarrow> (0, Some ErrSyntax)
              | Inl ErrRange \<Rightarrow> (if neg then - (2 ^ 63) else 2 ^ 63 - 1, Some ErrRange)
              | Inr n \<Rightarrow>
                  if \<not> neg \<and> n \<ge> 2 ^ 63 then (2 ^ 63 - 1, Some ErrRange)
                  else if neg \<and> n > 2 ^ 63 then (- (2 ^ 63), Some ErrRange)
                  else (if neg then - int n else int n, None))"

subsection \<open>time.Time\<close>

text \<open>
  An instant is its number of nanoseconds since 1970-01-01T00:00:00Z.  A location says
  which zone is in force at an instant: the offset east of UTC in seconds and the
  abbreviation.  \<^verbatim>\<open>time.Local\<close> is the location of the machine the server runs on.
\<close>

type_synonym instant = int

record zone =
  offset :: int
  abbrev :: string

type_synonym location = "instant \<Rightarrow> zone"

text \<open>
  The civil date of a day number counted from 1970-01-01, in the proleptic Gregorian
  calendar: the day's place in its 400-year era, the year of the era, the day of the
  year counted from 1 March, and from these the year, the month and the day.
\<close>

definition dayOfEra :: "int \<Rightarrow> int" where
  "dayOfEra days = (days + 719468) mod 146097"

definition yearOfEra :: "int \<Rightarrow> int" where
  "yearOfEra days =
     (dayOfEra days - dayOfEra days div 1460 + dayOfEra days div 36524
      - dayOfEra days div 146096) div 365"

definition dayOfYear :: "int \<Rightarrow> int" where
  "dayOfYear days =
     dayOfEra days - (365 * yearOfEra days + yearOfEra days div 4 - yearOfEra days div 100)"

definition civilMonth :: "int \<Rightarrow> int" where
  "civilMonth days =
     (if (5 * dayOfYear days + 2) div 153 < 10
      then (5 * dayOfYear days + 2) div 153 + 3
      else (5 * dayOfYear days + 2) div 153 - 9)"

definition civilDay :: "int \<Rightarrow> int" where
  "civilDay days = dayOfYear days - (153 * ((5 * dayOfYear days + 2) div 153) + 2) div 5 + 1"

definition civilYear :: "int \<Rightarrow> int" where
  "civilYear days =
     yearOfEra days + ((days + 719468) div 146097) * 400
     + (if civilMonth days \<le> 2 then 1 else 0)"

text \<open>The layout element \<^verbatim>\<open>-0700\<close>: Go's division truncates towards zero.\<close>

definition numTZ :: "int \<Rightarrow> string" where
  "numTZ off =
     (if off \<le> - 60 then ''-'' else ''+'')
     @ appendInt (\<bar>off\<bar> div 60 div 60) 2 @ appendInt (\<bar>off\<bar> div 60 mod 60) 2"

text \<open>The layout element \<^verbatim>\<open>.999999999\<close>: nothing for a whole second, else the
  nanoseconds without their trailing zeros.\<close>

definition fraction :: "int \<Rightarrow> string" where
  "fraction ns =
     (if ns = 0 then []
      else CHR ''.'' # rev (dropWhile (\<lambda>c. c = CHR ''0'') (rev (appendInt ns 9))))"

text \<open>The seconds since 1970-01-01T00:00:00 on the wall clock of a location.\<close>

definition wallSeconds :: "location \<Rightarrow> instant \<Rightarrow> int" where
  "wallSeconds loc t = t div 1000000000 + offset (loc t)"

text \<open>
  \<^verbatim>\<open>t.In(loc).String()\<close> for a time without a monotonic clock reading: the layout
  \<^verbatim>\<open>2006-01-02 15:04:05.999999999 -0700 MST\<close>.  A zone without an abbreviation is
  printed as its offset.
\<close>

definition Time_String :: "location \<Rightarrow> instant \<Rightarrow> string" where
  "Time_String loc t =
     appendInt (civilYear (wallSeconds loc t div 86400)) 4 @ ''-''
     @ appendInt (civilMonth (wallSeconds loc t div 86400)) 2 @ ''-''
     @ appendInt (civilDay (wallSeconds loc t div 86400)) 2 @ '' ''
     @ appendInt (wallSeconds loc t mod 86400 div 3600) 2 @ '':''
     @ appendInt (wallSeconds loc t mod 86400 mod 3600 div 60) 2 @ '':''
     @ appendInt (wallSeconds loc t mod 86400 mod 60) 2
     @ fraction (t mod 1000000000)
     @ '' '' @ numTZ (offset (loc t)) @ '' ''
     @ (if abbrev (loc t) \<noteq> [] then abbrev (loc t) else numTZ (offset (loc t)))"

section \<open>The server\<close>

definition kRouteHealthCheck :: string where "kRouteHealthCheck = ''/healthcheck''"
definition kGitHubRoot :: string where "kGitHubRoot = ''/''"
definition kGitHubNetflix :: string where "kGitHubNetflix = ''/orgs/Netflix''"
definition kGitHubNetflixMembers :: string where "kGitHubNetflixMembers = ''/orgs/Netflix/members''"
definition kGitHubNetflixRepos :: string where "kGitHubNetflixRepos = ''/orgs/Netflix/repos''"
definition kViews :: string where "kViews = ''/view/top/''"

text \<open>
  A \<^verbatim>\<open>viewElm\<close> is never changed once it is made, so a pointer to one is modelled by
  the value it points to: a view is the list of the elements its pointers reach.
\<close>

record viewElm =
  name :: string
  forks :: int
  updated :: instant
  openIssues :: int
  stars :: int

text \<open>
  The server.  \<open>lock\<close> is the mutex \<^verbatim>\<open>s.lock\<close>: true while it is held.  The
  functions below are run one at a time, each critical section as a whole, so a function
  that finds the mutex held has found it left held by a handler that panicked between
  \<^verbatim>\<open>Lock\<close> and \<^verbatim>\<open>Unlock\<close>; nothing releases it then, and the function blocks for
  ever, which is the value \<open>None\<close>.
\<close>

record Server =
  port :: "32 word"
  apiToken :: string
  caches :: "string \<rightharpoonup> body"
  topForks :: "viewElm list"
  lastUpdated :: "viewElm list"
  topOpenIssues :: "viewElm list"
  topStars :: "viewElm list"
  ready :: bool
  lock :: bool

text \<open>
  \<^verbatim>\<open>NewServer\<close>: the fields the constructor does not name have Go's zero values
  (the zero mutex is unlocked).  The handlers it registers are the functions below.
\<close>

definition NewServer :: "32 word \<Rightarrow> string \<Rightarrow> Server" where
  "NewServer p tok =
     \<lparr>port = p, apiToken = tok, caches = Map.empty, topForks = [], lastUpdated = [],
      topOpenIssues = [], topStars = [], ready = False, lock = False\<rparr>"

text \<open>\<^verbatim>\<open>s.lock.Lock()\<close> and \<^verbatim>\<open>s.lock.Unlock()\<close>.\<close>

definition Lock :: "Server \<Rightarrow> Server option" where
  "Lock s = (if lock s then None else Some (s\<lparr>lock := True\<rparr>))"

definition Unlock :: "Server \<Rightarrow> Server" where
  "Unlock s = s\<lparr>lock := False\<rparr>"

subsection \<open>Decoding a page of repositories\<close>

text \<open>
  Modelled from the spec: the package \<^verbatim>\<open>github_types\<close> is not among the sources.
  \<^verbatim>\<open>Repository\<close> has the five fields the spec names and
  \<^verbatim>\<open>refreshNetflixRepos\<close> reads; the server dereferences them, so they are pointers,
  \<open>None\<close> being nil.  How the members of a JSON object become the fields, and how a
  repository is written back as JSON, is decided by the declaration that is missing:
  it is the parameter \<open>codec\<close>.  \<open>fromObject\<close> returns whether a member did not fit
  its field, and the repository as decoded all the same.
\<close>

record Repository =
  Name :: "string option"
  ForksCount :: "int option"
  UpdatedAt :: "instant option"
  OpenIssuesCount :: "int option"
  StargazersCount :: "int option"

record codec =
  fromObject :: "(string \<times> json) list \<Rightarrow> bool \<times> Repository"
  toObject :: "Repository \<Rightarrow> json"

definition zeroRepository :: Repository where
  "zeroRepository =
     \<lparr>Name = None, ForksCount = None, UpdatedAt = None, OpenIssuesCount = None,
      StargazersCount = None\<rparr>"

text \<open>
  One element of the array, decoded into a \<^verbatim>\<open>*Repository\<close>: \<^verbatim>\<open>null\<close> is the nil
  pointer; for any other value \<^verbatim>\<open>encoding/json\<close> allocates the repository first, and
  a value that is not an object is then a type error that leaves the repository zero.
  The first component says whether an error was recorded.
\<close>

definition decodeElement :: "codec \<Rightarrow> json \<Rightarrow> bool \<times> Repository option" where
  "decodeElement cd j =
     (case j of
        JNull \<Rightarrow> (False, None)
      | JObject kvs \<Rightarrow> (fst (fromObject cd kvs), Some (snd (fromObject cd kvs)))
      | _ \<Rightarrow> (True, Some zeroRepository))"

text \<open>
  \<^verbatim>\<open>json.Unmarshal(body, &pageRepos)\<close> with \<^verbatim>\<open>pageRepos\<close> nil before the call:
  whether it returns an error, and \<^verbatim>\<open>pageRepos\<close> after it.  Bytes that are not JSON
  and a value that is not an array leave the slice nil; an array is decoded element by
  element to its end, type errors or not, and the first error is returned.
\<close>

definition json_Unmarshal :: "codec \<Rightarrow> body \<Rightarrow> bool \<times> Repository option list" where
  "json_Unmarshal cd b =
     (case b of
        Malformed _ \<Rightarrow> (True, [])
      | Doc JNull \<Rightarrow> (False, [])
      | Doc (JArray js) \<Rightarrow>
          (list_ex (\<lambda>j. fst (decodeElement cd j)) js, map (\<lambda>j. snd (decodeElement cd j)) js)
      | Doc _ \<Rightarrow> (True, []))"

text \<open>\<^verbatim>\<open>json.Marshal(repos)\<close>: a nil slice is \<^verbatim>\<open>null\<close>, a nil pointer is \<^verbatim>\<open>null\<close>.\<close>

definition json_Marshal :: "codec \<Rightarrow> Repository option list \<Rightarrow> body" where
  "json_Marshal cd repos =
     (if repos = [] then Doc JNull
      else Doc (JArray (map (\<lambda>r. case r of None \<Rightarrow> JNull | Some x \<Rightarrow> toObject cd x) repos)))"

subsection \<open>Refreshing the caches\<close>

text \<open>
  The view element of a repository.  Each \<^verbatim>\<open>*r.Field\<close> panics on a nil pointer, and
  so does any of them when \<^verbatim>\<open>r\<close> itself is nil.
\<close>

definition newViewElm :: "Repository option \<Rightarrow> panic + viewElm" where
  "newViewElm r =
     (case r of
        None \<Rightarrow> Inl NilDereference
      | Some x \<Rightarrow>
          (case (Name x, ForksCount x, UpdatedAt x, OpenIssuesCount x, StargazersCount x) of
             (Some n, Some f, Some u, Some i, Some st) \<Rightarrow>
               Inr \<lparr>name = n, forks = f, updated = u, openIssues = i, stars = st\<rparr>
           | _ \<Rightarrow> Inl NilDereference))"

text \<open>The loop over \<^verbatim>\<open>pageRepos\<close>, on the pair of \<^verbatim>\<open>repos\<close> and \<^verbatim>\<open>elms\<close>.\<close>

fun appendRepos ::
  "Repository option list \<Rightarrow> Repository option list \<times> viewElm list
   \<Rightarrow> panic + Repository option list \<times> viewElm list" where
  "appendRepos [] acc = Inr acc"
| "appendRepos (r # rs) (repos, elms) =
     (case newViewElm r of
        Inl p \<Rightarrow> Inl p
      | Inr ve \<Rightarrow> appendRepos rs (repos @ [r], elms @ [ve]))"

text \<open>What the loop of \<^verbatim>\<open>refreshNetflixRepos\<close> does with a page: the error of
  \<^verbatim>\<open>json.Unmarshal\<close> is dropped.\<close>

definition appendPage ::
  "codec \<Rightarrow> body \<Rightarrow> Repository option list \<times> viewElm list
   \<Rightarrow> panic + Repository option list \<times> viewElm list" where
  "appendPage cd b acc = appendRepos (snd (json_Unmarshal cd b)) acc"

text \<open>
  \<^verbatim>\<open>sort.Slice\<close> is Go's library.  On a slice of at most 12 elements it is the
  insertion sort written here: each element in turn is swapped towards the front while
  it is less than its left neighbour (\<open>sink\<close> works on the part already sorted, in
  reverse).  On longer slices the library may leave equal elements in another order;
  the theorems use only that the result is a permutation in the order of the
  comparison.
\<close>

fun sink :: "('a \<Rightarrow> 'a \<Rightarrow> bool) \<Rightarrow> 'a \<Rightarrow> 'a list \<Rightarrow> 'a list" where
  "sink lt x [] = [x]"
| "sink lt x (y # ys) = (if lt x y then y # sink lt x ys else x # y # ys)"

definition sort_Slice :: "('a \<Rightarrow> 'a \<Rightarrow> bool) \<Rightarrow> 'a list \<Rightarrow> 'a list" where
  "sort_Slice lt xs = rev (foldl (\<lambda>acc x. sink lt x acc) [] xs)"

text \<open>
  The refreshes of the single-page routes: the page is fetched, then the body is stored
  under the lock, which the deferred \<^verbatim>\<open>Unlock\<close> releases.
\<close>

definition refreshRoot :: "client \<Rightarrow> Server \<Rightarrow> (panic + Server) option" where
  "refreshRoot c s =
     (case GetPage c (NewPagedGet kGitHubRoot (apiToken s)) of
        Inl p \<Rightarrow> Some (Inl p)
      | Inr (b, _, _) \<Rightarrow>
          (case Lock s of
             None \<Rightarrow> None
           | Some s1 \<Rightarrow> Some (Inr (Unlock (s1\<lparr>caches := (caches s1)(kGitHubRoot \<mapsto> b)\<rparr>)))))"

definition refreshNetflix :: "client \<Rightarrow> Server \<Rightarrow> (panic + Server) option" where
  "refreshNetflix c s =
     (case GetPage c (NewPagedGet kGitHubNetflix (apiToken s)) of
        Inl p \<Rightarrow> Some (Inl p)
      | Inr (b, _, _) \<Rightarrow>
          (case Lock s of
             None \<Rightarrow> None
           | Some s1 \<Rightarrow> Some (Inr (Unlock (s1\<lparr>caches := (caches s1)(kGitHubNetflix \<mapsto> b)\<rparr>)))))"

definition refreshNetflixMembers :: "client \<Rightarrow> Server \<Rightarrow> (panic + Server) option" where
  "refreshNetflixMembers c s =
     (case GetPage c (NewPagedGet kGitHubNetflixMembers (apiToken s)) of
        Inl p \<Rightarrow> Some (Inl p)
      | Inr (b, _, _) \<Rightarrow>
          (case Lock s of
             None \<Rightarrow> None
           | Some s1 \<Rightarrow>
               Some (Inr (Unlock (s1\<lparr>caches := (caches s1)(kGitHubNetflixMembers \<mapsto> b)\<rparr>)))))"

text \<open>The part of \<^verbatim>\<open>refreshNetflixRepos\<close> under the lock: the flattened body is
  stored, the four slices are cut to length 0, every element is appended to each, and
  each is sorted by its key, greatest first.\<close>

definition appendViews :: "Server \<Rightarrow> viewElm \<Rightarrow> Server" where
  "appendViews s ve =
     s\<lparr>topForks := topForks s @ [ve], lastUpdated := lastUpdated s @ [ve],
       topOpenIssues := topOpenIssues s @ [ve], topStars := topStars s @ [ve]\<rparr>"

definition sortViews :: "Server \<Rightarrow> Server" where
  "sortViews s =
     s\<lparr>topForks := sort_Slice (\<lambda>a b. forks a > forks b) (topForks s),
       lastUpdated := sort_Slice (\<lambda>a b. updated a > updated b) (lastUpdated s),
       topOpenIssues := sort_Slice (\<lambda>a b. openIssues a > openIssues b) (topOpenIssues s),
       topStars := sort_Slice (\<lambda>a b. stars a > stars b) (topStars s)\<rparr>"

definition storeRepos :: "codec \<Rightarrow> Repository option list \<Rightarrow> viewElm list \<Rightarrow> Server \<Rightarrow> Server" where
  "storeRepos cd repos elms s =
     sortViews
       (foldl appendViews
          (s\<lparr>caches := (caches s)(kGitHubNetflixRepos \<mapsto> json_Marshal cd repos),
             topForks := take 0 (topForks s), lastUpdated := take 0 (lastUpdated s),
             topOpenIssues := take 0 (topOpenIssues s), topStars := take 0 (topStars s)\<rparr>)
          elms)"

definition refreshNetflixRepos :: "codec \<Rightarrow> client \<Rightarrow> Server \<Rightarrow> (panic + Server) option" where
  "refreshNetflixRepos cd c s =
     (case pages (appendPage cd) c (NewPagedGet kGitHubNetflixRepos (apiToken s)) ([], []) of
        None \<Rightarrow> None
      | Some (Inl p) \<Rightarrow> Some (Inl p)
      | Some (Inr (repos, elms)) \<Rightarrow>
          (case Lock s of
             None \<Rightarrow> None
           | Some s1 \<Rightarrow> Some (Inr (Unlock (storeRepos cd repos elms s1)))))"

text \<open>
  \<^verbatim>\<open>refreshCaches\<close>.  The four goroutines write different parts of the state, each
  under the lock, so the state after \<^verbatim>\<open>wg.Wait()\<close> does not depend on how they
  interleave: they are run one after the other, the three single-page fetches first.
  A panic in a goroutine is recovered nowhere and ends the process, so the first panic
  is the outcome of the cycle.  Where nothing panics and a goroutine never finishes (the
  walk over the pages of the repositories never ends, or the mutex is never released),
  \<^verbatim>\<open>wg.Wait()\<close> never returns: \<open>None\<close>.
\<close>

definition refreshCaches :: "codec \<Rightarrow> client \<Rightarrow> Server \<Rightarrow> (panic + Server) option" where
  "refreshCaches cd c s =
     (case refreshRoot c s of
        None \<Rightarrow> None
      | Some (Inl p) \<Rightarrow> Some (Inl p)
      | Some (Inr s1) \<Rightarrow>
     (case refreshNetflix c s1 of
        None \<Rightarrow> None
      | Some (Inl p) \<Rightarrow> Some (Inl p)
      | Some (Inr s2) \<Rightarrow>
     (case refreshNetflixMembers c s2 of
        None \<Rightarrow> None
      | Some (Inl p) \<Rightarrow> Some (Inl p)
      | Some (Inr s3) \<Rightarrow>
     (case refreshNetflixRepos cd c s3 of
        None \<Rightarrow> None
      | Some (Inl p) \<Rightarrow> Some (Inl p)
      | Some (Inr s4) \<Rightarrow>
          if \<not> ready s4
          then (case Lock s4 of
                  None \<Rightarrow> None
                | Some s5 \<Rightarrow> Some (Inr (Unlock (s5\<lparr>ready := True\<rparr>))))
          else Some (Inr s4)))))"

text \<open>
  \<^verbatim>\<open>Run\<close>, cut after finitely many cycles of its loop: one world per cycle (the
  upstream may answer differently five minutes later).
\<close>

fun Run :: "codec \<Rightarrow> client list \<Rightarrow> Server \<Rightarrow> (panic + Server) option" where
  "Run cd [] s = Some (Inr s)"
| "Run cd (c # cs) s =
     (case refreshCaches cd c s of
        None \<Rightarrow> None
      | Some (Inl p) \<Rightarrow> Some (Inl p)
      | Some (Inr s') \<Rightarrow> Run cd cs s')"

subsection \<open>The handlers\<close>

text \<open>
  A request as a handler sees it: \<open>reqPath\<close> is \<^verbatim>\<open>r.URL.Path\<close> and \<open>reqURL\<close> is
  \<^verbatim>\<open>r.URL\<close> as \<^verbatim>\<open>%v\<close> prints it.  What a handler writes: the status (200 when
  \<^verbatim>\<open>WriteHeader\<close> is not called), the headers it sets and the body.  A panic in a
  handler ends the request (\<^verbatim>\<open>net/http\<close> recovers it), not the process.
\<close>

record server_request =
  reqMethod :: string
  reqPath :: string
  reqURL :: string
  reqHeader :: header
  reqBody :: body

record 'a written =
  Status :: nat
  Headers :: header
  Payload :: 'a

text \<open>
  A handler returns what it writes and the state it leaves; it returns nothing
  (\<open>None\<close>) where it blocks on the mutex.  The health check reads the flag under the
  lock and writes the status only.
\<close>

definition handleHealthCheck :: "Server \<Rightarrow> (nat \<times> Server) option" where
  "handleHealthCheck s =
     (case Lock s of
        None \<Rightarrow> None
      | Some s1 \<Rightarrow> Some (if ready s1 then 200 else 503, Unlock s1))"

text \<open>The copy of a cached body; a path that is not in the map has the empty body.\<close>

definition cachedBody :: "Server \<Rightarrow> string \<Rightarrow> body" where
  "cachedBody s k = (case caches s k of None \<Rightarrow> noBody | Some b \<Rightarrow> b)"

definition writeCached :: "Server \<Rightarrow> string \<Rightarrow> (body written \<times> Server) option" where
  "writeCached s k =
     (case Lock s of
        None \<Rightarrow> None
      | Some s1 \<Rightarrow>
          Some (\<lparr>Status = 200,
                 Headers = [(''Content-Type'', ''application/json; charset=utf-8'')],
                 Payload = cachedBody s1 k\<rparr>, Unlock s1))"

definition Forward :: "client \<Rightarrow> server_request \<Rightarrow> panic + body written" where
  "Forward c r =
     (case http_NewRequest c ''GET'' (''https://api.github.com'' @ reqURL r) (reqBody r) of
        Inl err \<Rightarrow> Inl (LogPanic (''Get request failed '' @ err))
      | Inr req \<Rightarrow>
          (case Do c (req\<lparr>Header := reqHeader r\<rparr>) of
             Inl err \<Rightarrow>
               Inl (LogPanic (''Failed to issue http GET on url=https://api.github.com''
                              @ reqURL r @ '', err='' @ err))
           | Inr resp \<Rightarrow> Inr \<lparr>Status = 200, Headers = [], Payload = RespBody resp\<rparr>))"

definition handleRoot ::
  "client \<Rightarrow> Server \<Rightarrow> server_request \<Rightarrow> ((panic + body written) \<times> Server) option" where
  "handleRoot c s r =
     (if reqPath r = ''/'' then map_option (\<lambda>(w, s'). (Inr w, s')) (writeCached s kGitHubRoot)
      else Some (Forward c r, s))"

definition handleNetflix :: "Server \<Rightarrow> server_request \<Rightarrow> (body written \<times> Server) option" where
  "handleNetflix s r = writeCached s kGitHubNetflix"

definition handleNetflixRepos :: "Server \<Rightarrow> server_request \<Rightarrow> (body written \<times> Server) option" where
  "handleNetflixRepos s r = writeCached s kGitHubNetflixRepos"

definition handleNetflixMembers :: "Server \<Rightarrow> server_request \<Rightarrow> (body written \<times> Server) option" where
  "handleNetflixMembers s r = writeCached s kGitHubNetflixMembers"

text \<open>Indexing a slice: out of range is a run-time panic.\<close>

definition index :: "'a list \<Rightarrow> int \<Rightarrow> panic + 'a" where
  "index xs i =
     (if 0 \<le> i \<and> nat i < length xs then Inr (xs ! nat i)
      else Inl (IndexOutOfRange (nat i) (length xs)))"

definition pairText :: "string \<Rightarrow> string \<Rightarrow> string" where
  \<open>pairText n v = ''["Netflix/'' @ n @ ''",'' @ v @ '']''\<close>

definition quoted :: "string \<Rightarrow> string" where
  \<open>quoted v = ''"'' @ v @ ''"''\<close>

text \<open>
  The element of the response at index \<open>ii\<close>: the chain of comparisons of
  \<^verbatim>\<open>sortBy\<close>; with no branch taken \<^verbatim>\<open>elm\<close> stays the empty string.
\<close>

definition viewElmText :: "location \<Rightarrow> Server \<Rightarrow> string \<Rightarrow> int \<Rightarrow> panic + string" where
  "viewElmText loc s sortBy ii =
     (if sortBy = ''forks'' then
        (case index (topForks s) ii of
           Inl p \<Rightarrow> Inl p
         | Inr e \<Rightarrow> Inr (pairText (name e) (showInt (forks e))))
      else if sortBy = ''last_updated'' then
        (case index (lastUpdated s) ii of
           Inl p \<Rightarrow> Inl p
         | Inr e \<Rightarrow>
             Inr (pairText (name e)
                    (quoted (strings_TrimSuffix (Time_String loc (updated e)) ''-0700 PDT''
                             @ ''Z''))))
      else if sortBy = ''open_issues'' then
        (case index (topOpenIssues s) ii of
           Inl p \<Rightarrow> Inl p
         | Inr e \<Rightarrow> Inr (pairText (name e) (showInt (openIssues e))))
      else if sortBy = ''stars'' then
        (case index (topStars s) ii of
           Inl p \<Rightarrow> Inl p
         | Inr e \<Rightarrow> Inr (pairText (name e) (showInt (stars e))))
      else Inr [])"

text \<open>
  The loop \<^verbatim>\<open>for ii := 0; ii < count; ii++\<close> on the text written so far; \<open>cnt\<close>
  is \<^verbatim>\<open>count\<close>, an \<^verbatim>\<open>int\<close> of 64 bits, and \<open>ii\<close> stays below it, so neither
  \<open>ii + 1\<close> nor \<open>cnt - 1\<close> (computed only where \<open>0 \<le> ii < cnt\<close>) wraps around.
\<close>

function viewsLoop :: "location \<Rightarrow> Server \<Rightarrow> string \<Rightarrow> int \<Rightarrow> int \<Rightarrow> string \<Rightarrow> panic + string" where
  "viewsLoop loc s sortBy cnt ii out =
     (if ii < cnt then
        (case viewElmText loc s sortBy ii of
           Inl p \<Rightarrow> Inl p
         | Inr elm \<Rightarrow>
             viewsLoop loc s sortBy cnt (ii + 1)
               (out @ elm @ (if ii < cnt - 1 then '','' else [])))
      else Inr out)"
  by pat_completeness auto
termination
  by (relation "measure (\<lambda>(loc, s, sortBy, cnt, ii, out). nat (cnt - ii))") auto

declare viewsLoop.simps [simp del]

text \<open>
  What \<^verbatim>\<open>handleViews\<close> does between \<^verbatim>\<open>Lock\<close> and \<^verbatim>\<open>Unlock\<close>: the text of the
  response, or a panic; \<open>loc\<close> is \<^verbatim>\<open>time.Local\<close>.  The error of \<^verbatim>\<open>strconv.Atoi\<close>
  is dropped.
\<close>

definition viewsBody :: "location \<Rightarrow> Server \<Rightarrow> string \<Rightarrow> panic + string" where
  "viewsBody loc s path =
     (case index (strings_Split (strings_TrimSpace path) CHR ''/'') 3 of
        Inl p \<Rightarrow> Inl p
      | Inr t3 \<Rightarrow>
     (case index (strings_Split (strings_TrimSpace path) CHR ''/'') 4 of
        Inl p \<Rightarrow> Inl p
      | Inr sortBy \<Rightarrow>
     (case viewsLoop loc s sortBy (fst (Atoi t3)) 0 ''['' of
        Inl p \<Rightarrow> Inl p
      | Inr out \<Rightarrow> Inr (out @ '']''))))"

text \<open>
  \<^verbatim>\<open>handleViews\<close>.  The \<^verbatim>\<open>Unlock\<close> is not deferred: a panic under the lock leaves
  the mutex held when \<^verbatim>\<open>net/http\<close> recovers it.
\<close>

definition handleViews ::
  "location \<Rightarrow> Server \<Rightarrow> server_request \<Rightarrow> ((panic + string written) \<times> Server) option" where
  "handleViews loc s r =
     (case Lock s of
        None \<Rightarrow> None
      | Some s1 \<Rightarrow>
          (case viewsBody loc s1 (reqPath r) of
             Inl p \<Rightarrow> Some (Inl p, s1)
           | Inr out \<Rightarrow> Some (Inr \<lparr>Status = 200, Headers = [], Payload = out\<rparr>, Unlock s1)))"

section \<open>Describing an upstream\<close>

text \<open>
  The \<^verbatim>\<open>Link\<close> header as GitHub writes it: the entries \<^verbatim>\<open><url>; rel="name"\<close>,
  separated by a comma and a space.  An entry is the pair of its URL and its relation.
\<close>

definition link_entry :: "string \<times> string \<Rightarrow> string" where
  \<open>link_entry e = ''<'' @ fst e @ ''>; rel="'' @ snd e @ ''"''\<close>

fun link_header :: "(string \<times> string) list \<Rightarrow> string" where
  "link_header [] = []"
| "link_header [e] = link_entry e"
| "link_header (e # es) = link_entry e @ '', '' @ link_header es"

text \<open>Text without the two separators of the header.\<close>

definition plain :: "string \<Rightarrow> bool" where
  "plain u = (CHR '','' \<notin> set u \<and> CHR '';'' \<notin> set u)"

definition plain_entries :: "(string \<times> string) list \<Rightarrow> bool" where
  "plain_entries es = list_all (\<lambda>e. plain (fst e) \<and> plain (snd e)) es"

definition first_next :: "(string \<times> string) list \<Rightarrow> string option" where
  "first_next es = map_option fst (find (\<lambda>e. snd e = ''next'') es)"

text \<open>
  An upstream serves the pages \<open>ps\<close> to a fetcher: the request for the fetcher's link
  is answered with the first page, whose header has a \<open>next\<close> entry exactly when a page
  follows, and that entry's URL is answered with the rest.  A page is its body and the
  entries of its header (none: no header).
\<close>

fun serves :: "client \<Rightarrow> PagedGet \<Rightarrow> (body \<times> (string \<times> string) list) list \<Rightarrow> bool" where
  "serves c g [] = False"
| "serves c g (p # ps) =
     (nextLink g \<noteq> [] \<and> NewRequest_err c ''GET'' (nextLink g) = None
      \<and> (case Do c (pageRequest g) of
            Inl err \<Rightarrow> False
          | Inr resp \<Rightarrow>
              RespBody resp = fst p \<and> Header_Get (RespHeader resp) ''Link'' = link_header (snd p))
      \<and> plain_entries (snd p)
      \<and> (if first_next (snd p) = None then ps = []
          else serves c (g\<lparr>nextLink := the (first_next (snd p))\<rparr>) ps))"

text \<open>The pages of a walk, collected in the order they are fetched.\<close>

definition collectBody :: "body \<Rightarrow> body list \<Rightarrow> panic + body list" where
  "collectBody b bs = Inr (bs @ [b])"

text \<open>What the loop body does to the accumulator over a list of pages.\<close>

fun overPages :: "(body \<Rightarrow> 'a \<Rightarrow> panic + 'a) \<Rightarrow> body list \<Rightarrow> 'a \<Rightarrow> panic + 'a" where
  "overPages f [] acc = Inr acc"
| "overPages f (b # bs) acc =
     (case f b acc of Inl p \<Rightarrow> Inl p | Inr acc' \<Rightarrow> overPages f bs acc')"

text \<open>The four views hold the same records, each as often as the others do.\<close>

definition sameRecords :: "Server \<Rightarrow> bool" where
  "sameRecords s =
     (mset (lastUpdated s) = mset (topForks s) \<and> mset (topOpenIssues s) = mset (topForks s)
      \<and> mset (topStars s) = mset (topForks s))"

text \<open>
  A body that \<^verbatim>\<open>json.Unmarshal\<close> cannot take for a slice at all: bytes that are not
  JSON, or a JSON value that is neither an array nor \<^verbatim>\<open>null\<close>.
\<close>

definition undecodable :: "body \<Rightarrow> bool" where
  "undecodable b =
     (case b of
        Malformed _ \<Rightarrow> True
      | Doc j \<Rightarrow> (case j of JNull \<Rightarrow> False | JArray _ \<Rightarrow> False | _ \<Rightarrow> True))"

section \<open>Concrete worlds\<close>

text \<open>An upstream that answers every request with one page: status 200, no
  \<^verbatim>\<open>Link\<close> header, an empty JSON object.\<close>

definition one_page :: client where
  "one_page =
     \<lparr>NewRequest_err = (\<lambda>m u. None),
      Do = (\<lambda>r. Inr \<lparr>StatusCode = 200, RespHeader = [], RespBody = Doc (JObject [])\<rparr>)\<rparr>"

text \<open>
  The repositories of the organisation on three pages, with the \<^verbatim>\<open>Link\<close> headers
  GitHub sends: \<open>next\<close> on the first two pages only.
\<close>

definition three_pages :: client where
  \<open>three_pages =
     \<lparr>NewRequest_err = (\<lambda>m u. None),
      Do = (\<lambda>r.
        if URL r = ''https://api.github.com/orgs/Netflix/repos'' then
          Inr \<lparr>StatusCode = 200,
               RespHeader = [(''Link'', ''<https://api.github.com/organizations/913567/repos?page=2>; rel="next", <https://api.github.com/organizations/913567/repos?page=3>; rel="last"'')],
               RespBody = Malformed ''page 1''\<rparr>
        else if URL r = ''https://api.github.com/organizations/913567/repos?page=2'' then
          Inr \<lparr>StatusCode = 200,
               RespHeader = [(''Link'', ''<https://api.github.com/organizations/913567/repos?page=1>; rel="prev", <https://api.github.com/organizations/913567/repos?page=3>; rel="next", <https://api.github.com/organizations/913567/repos?page=3>; rel="last", <https://api.github.com/organizations/913567/repos?page=1>; rel="first"'')],
               RespBody = Malformed ''page 2''\<rparr>
        else if URL r = ''https://api.github.com/organizations/913567/repos?page=3'' then
          Inr \<lparr>StatusCode = 200,
               RespHeader = [(''Link'', ''<https://api.github.com/organizations/913567/repos?page=2>; rel="prev", <https://api.github.com/organizations/913567/repos?page=1>; rel="first"'')],
               RespBody = Malformed ''page 3''\<rparr>
        else Inl ''no such host'')\<rparr>\<close>

definition three_pages_served :: "(body \<times> (string \<times> string) list) list" where
  "three_pages_served =
     [(Malformed ''page 1'',
       [(''https://api.github.com/organizations/913567/repos?page=2'', ''next''),
        (''https://api.github.com/organizations/913567/repos?page=3'', ''last'')]),
      (Malformed ''page 2'',
       [(''https://api.github.com/organizations/913567/repos?page=1'', ''prev''),
        (''https://api.github.com/organizations/913567/repos?page=3'', ''next''),
        (''https://api.github.com/organizations/913567/repos?page=3'', ''last''),
        (''https://api.github.com/organizations/913567/repos?page=1'', ''first'')]),
      (Malformed ''page 3'',
       [(''https://api.github.com/organizations/913567/repos?page=2'', ''prev''),
        (''https://api.github.com/organizations/913567/repos?page=1'', ''first'')])]"

text \<open>
  A codec for the examples: the members of a repository as GitHub names them, the
  timestamp in Unix seconds.  A member of the wrong type is an error and leaves the
  zero value behind the pointer, as \<^verbatim>\<open>encoding/json\<close> does.
\<close>

definition stringMember :: "json option \<Rightarrow> bool \<times> string option" where
  "stringMember j =
     (case j of
        None \<Rightarrow> (False, None)
      | Some JNull \<Rightarrow> (False, None)
      | Some (JString x) \<Rightarrow> (False, Some x)
      | Some _ \<Rightarrow> (True, Some []))"

definition intMember :: "json option \<Rightarrow> bool \<times> int option" where
  "intMember j =
     (case j of
        None \<Rightarrow> (False, None)
      | Some JNull \<Rightarrow> (False, None)
      | Some (JNumber n) \<Rightarrow>
          if - (2 ^ 63) \<le> n \<and> n < 2 ^ 63 then (False, Some n) else (True, Some 0)
      | Some _ \<Rightarrow> (True, Some 0))"

definition github_codec :: codec where
  "github_codec =
     \<lparr>fromObject = (\<lambda>kvs.
        (fst (stringMember (map_of kvs ''name'')) \<or> fst (intMember (map_of kvs ''forks_count''))
         \<or> fst (intMember (map_of kvs ''updated_at''))
         \<or> fst (intMember (map_of kvs ''open_issues_count''))
         \<or> fst (intMember (map_of kvs ''stargazers_count'')),
         \<lparr>Name = snd (stringMember (map_of kvs ''name'')),
          ForksCount = snd (intMember (map_of kvs ''forks_count'')),
          UpdatedAt = map_option (\<lambda>n. n * 1000000000) (snd (intMember (map_of kvs ''updated_at''))),
          OpenIssuesCount = snd (intMember (map_of kvs ''open_issues_count'')),
          StargazersCount = snd (intMember (map_of kvs ''stargazers_count''))\<rparr>)),
      toObject = (\<lambda>r.
        JObject [(''name'', case Name r of None \<Rightarrow> JNull | Some x \<Rightarrow> JString x),
                 (''forks_count'', case ForksCount r of None \<Rightarrow> JNull | Some n \<Rightarrow> JNumber n),
                 (''updated_at'',
                  case UpdatedAt r of None \<Rightarrow> JNull | Some t \<Rightarrow> JNumber (t div 1000000000)),
                 (''open_issues_count'',
                  case OpenIssuesCount r of None \<Rightarrow> JNull | Some n \<Rightarrow> JNumber n),
                 (''stargazers_count'',
                  case StargazersCount r of None \<Rightarrow> JNull | Some n \<Rightarrow> JNumber n)])\<rparr>"

text \<open>The state after the first cycle against the upstream \<open>one_page\<close>.\<close>

definition one_page_state :: Server where
  "one_page_state =
     \<lparr>port = 8080, apiToken = [],
      caches = [kGitHubRoot \<mapsto> Doc (JObject []), kGitHubNetflix \<mapsto> Doc (JObject []),
                kGitHubNetflixMembers \<mapsto> Doc (JObject []), kGitHubNetflixRepos \<mapsto> Doc JNull],
      topForks = [], lastUpdated = [], topOpenIssues = [], topStars = [], ready = True,
      lock = False\<rparr>"

text \<open>A server in UTC, and one on Pacific time in winter and in summer.\<close>

definition utc :: location where
  "utc = (\<lambda>t. \<lparr>offset = 0, abbrev = ''UTC''\<rparr>)"

definition pst :: location where
  "pst = (\<lambda>t. \<lparr>offset = - 28800, abbrev = ''PST''\<rparr>)"

definition pdt :: location where
  "pdt = (\<lambda>t. \<lparr>offset = - 25200, abbrev = ''PDT''\<rparr>)"

text \<open>A \<^verbatim>\<open>GET\<close> request for a path, without a query, headers or a body.\<close>

definition get :: "string \<Rightarrow> server_request" where
  "get path = \<lparr>reqMethod = ''GET'', reqPath = path, reqURL = path, reqHeader = [], reqBody = noBody\<rparr>"

text \<open>
  An upstream whose every answer is one page with two repositories: \<open>A\<close> with 5 forks
  and 10 stars, \<open>B\<close> with 9 forks and 2 stars.
\<close>

definition repoA :: json where
  "repoA = JObject [(''name'', JString ''A''), (''forks_count'', JNumber 5),
                    (''updated_at'', JNumber 1525195230), (''open_issues_count'', JNumber 3),
                    (''stargazers_count'', JNumber 10)]"

definition repoB :: json where
  "repoB = JObject [(''name'', JString ''B''), (''forks_count'', JNumber 9),
                    (''updated_at'', JNumber 1514823630), (''open_issues_count'', JNumber 1),
                    (''stargazers_count'', JNumber 2)]"

definition two_repos :: client where
  "two_repos =
     \<lparr>NewRequest_err = (\<lambda>m u. None),
      Do = (\<lambda>r. Inr \<lparr>StatusCode = 200, RespHeader = [],
                      RespBody = Doc (JArray [repoA, repoB])\<rparr>)\<rparr>"

definition elmA :: viewElm where
  "elmA = \<lparr>name = ''A'', forks = 5, updated = 1525195230000000000, openIssues = 3, stars = 10\<rparr>"

definition elmB :: viewElm where
  "elmB = \<lparr>name = ''B'', forks = 9, updated = 1514823630000000000, openIssues = 1, stars = 2\<rparr>"

text \<open>The state after the first cycle against the upstream \<open>two_repos\<close>.\<close>

definition two_repos_state :: Server where
  "two_repos_state =
     \<lparr>port = 8080, apiToken = [],
      caches = [kGitHubRoot \<mapsto> Doc (JArray [repoA, repoB]),
                kGitHubNetflix \<mapsto> Doc (JArray [repoA, repoB]),
                kGitHubNetflixMembers \<mapsto> Doc (JArray [repoA, repoB]),
                kGitHubNetflixRepos \<mapsto> Doc (JArray [repoA, repoB])],
      topForks = [elmB, elmA], lastUpdated = [elmA, elmB], topOpenIssues = [elmA, elmB],
      topStars = [elmA, elmB], ready = True, lock = False\<rparr>"

text \<open>An upstream that answers every request with the method it was sent, as the body.\<close>

definition echo_method :: client where
  "echo_method =
     \<lparr>NewRequest_err = (\<lambda>m u. None),
      Do = (\<lambda>r. Inr \<lparr>StatusCode = 200, RespHeader = [], RespBody = Malformed (Method r)\<rparr>)\<rparr>"

text \<open>A \<^verbatim>\<open>POST\<close> request to a path the server does not cache.\<close>

definition post_gists :: server_request where
  \<open>post_gists =
     \<lparr>reqMethod = ''POST'', reqPath = ''/gists'', reqURL = ''/gists'',
      reqHeader = [(''Content-Type'', ''application/json'')],
      reqBody = Doc (JObject [(''description'', JString ''x'')])\<rparr>\<close>



text \<open>
  The repositories on three pages as in \<open>three_pages\<close>, the first page holding \<open>A\<close>,
  the third \<open>B\<close>, and the second an error page that is not JSON.
\<close>

definition broken_middle_page :: client where
  \<open>broken_middle_page =
     \<lparr>NewRequest_err = (\<lambda>m u. None),
      Do = (\<lambda>r.
        if URL r = ''https://api.github.com/orgs/Netflix/repos'' then
          Inr \<lparr>StatusCode = 200,
               RespHeader = [(''Link'', ''<https://api.github.com/organizations/913567/repos?page=2>; rel="next", <https://api.github.com/organizations/913567/repos?page=3>; rel="last"'')],
               RespBody = Doc (JArray [repoA])\<rparr>
        else if URL r = ''https://api.github.com/organizations/913567/repos?page=2'' then
          Inr \<lparr>StatusCode = 502,
               RespHeader = [(''Link'', ''<https://api.github.com/organizations/913567/repos?page=1>; rel="prev", <https://api.github.com/organizations/913567/repos?page=3>; rel="next", <https://api.github.com/organizations/913567/repos?page=3>; rel="last", <https://api.github.com/organizations/913567/repos?page=1>; rel="first"'')],
               RespBody = Malformed ''<html>Bad Gateway</html>''\<rparr>
        else if URL r = ''https://api.github.com/organizations/913567/repos?page=3'' then
          Inr \<lparr>StatusCode = 200,
               RespHeader = [(''Link'', ''<https://api.github.com/organizations/913567/repos?page=2>; rel="prev", <https://api.github.com/organizations/913567/repos?page=1>; rel="first"'')],
               RespBody = Doc (JArray [repoB])\<rparr>
        else Inl ''no such host'')\<rparr>\<close>

definition broken_middle_page_served :: "(body \<times> (string \<times> string) list) list" where
  "broken_middle_page_served =
     [(Doc (JArray [repoA]),
       [(''https://api.github.com/organizations/913567/repos?page=2'', ''next''),
        (''https://api.github.com/organizations/913567/repos?page=3'', ''last'')]),
      (Malformed ''<html>Bad Gateway</html>'',
       [(''https://api.github.com/organizations/913567/repos?page=1'', ''prev''),
        (''https://api.github.com/organizations/913567/repos?page=3'', ''next''),
        (''https://api.github.com/organizations/913567/repos?page=3'', ''last''),
        (''https://api.github.com/organizations/913567/repos?page=1'', ''first'')]),
      (Doc (JArray [repoB]),
       [(''https://api.github.com/organizations/913567/repos?page=2'', ''prev''),
        (''https://api.github.com/organizations/913567/repos?page=1'', ''first'')])]"

text \<open>An upstream whose one page of repositories is an array of \<open>A\<close> and the number 5.\<close>

definition bad_element :: client where
  "bad_element =
     \<lparr>NewRequest_err = (\<lambda>m u. None),
      Do = (\<lambda>r. Inr \<lparr>StatusCode = 200, RespHeader = [],
                      RespBody = Doc (JArray [repoA, JNumber 5])\<rparr>)\<rparr>"

text \<open>
  A server on Pacific time, for the instants of 2018: daylight saving time from
  2018-03-11T10:00:00Z to 2018-11-04T09:00:00Z.
\<close>

definition pacific :: location where
  "pacific t =
     (if 1520762400000000000 \<le> t \<and> t < 1541322000000000000 then pdt t else pst t)"

section \<open>Evaluation rules\<close>

lemma showNat_small: "n < 10 \<Longrightarrow> showNat n = [digitChar n]"
  by (simp add: showNat.simps)

lemma showNat_large: "10 \<le> n \<Longrightarrow> showNat n = showNat (n div 10) @ [digitChar (n mod 10)]"
  by (subst showNat.simps) simp

lemma replicate_numeral: "replicate (numeral k) x = x # replicate (numeral k - 1) x"
  by (simp add: numeral_eq_Suc)

lemmas show_simps =
  showNat_small showNat_large digitChar_def showInt_def appendInt_def replicate_numeral

lemmas time_simps =
  Time_String_def wallSeconds_def civilYear_def civilMonth_def civilDay_def dayOfYear_def
  yearOfEra_def dayOfEra_def numTZ_def fraction_def

lemmas strings_simps =
  strings_TrimSpace_def strings_TrimPrefix_def strings_TrimSuffix_def asciiSpace_def

lemmas GetPage_simps =
  GetPage_def NewPagedGet_def http_NewRequest_def Header_Add_def Header_Get_def rel_next_def
  noBody_def strings_simps

section \<open>PagedGet\<close>

lemma GetPage_empty_link:
  "nextLink g = [] \<Longrightarrow> GetPage c g = Inl (LogPanic ''GetPage beyond page chain.'')"
  by (simp add: GetPage_def)

lemma GetPage_last_keeps_link:
  assumes "GetPage c g = Inr (b, False, g')"
  shows "g' = g \<and> nextLink g' \<noteq> []"
  using assms
  by (auto simp: GetPage_def Let_def split: if_splits sum.splits option.splits)

text \<open>
  C9.  The claim: a call of \<^verbatim>\<open>GetPage\<close> after the call that reported the last page
  panics.  On the code it does not: the fetcher is left as it was, with the URL of the
  last page as its next link, so the call fetches the last page once more and reports
  again that no page remains.  Here the upstream has one page; the first call returns
  it with \<open>False\<close>, and so does the call on the fetcher the first call left.
\<close>

theorem GetPage_after_last_page_refetches:
  "GetPage one_page (NewPagedGet ''/'' []) = Inr (Doc (JObject []), False, NewPagedGet ''/'' [])
   \<and> GetPage one_page (snd (snd (projr (GetPage one_page (NewPagedGet ''/'' [])))))
       = Inr (Doc (JObject []), False, NewPagedGet ''/'' [])"
  by (simp add: GetPage_simps one_page_def)

section \<open>Walking the pages\<close>

lemma Split_no_sep: "sep \<notin> set a \<Longrightarrow> strings_Split a sep = [a]"
  by (induction a) auto

lemma Split_at_sep:
  "sep \<notin> set a \<Longrightarrow> strings_Split (a @ sep # b) sep = a # strings_Split b sep"
  by (induction a) auto

lemma plain_entry_fields:
  assumes "plain (fst e)" "plain (snd e)" "CHR '';'' \<notin> set p"
  shows "strings_Split (p @ link_entry e) CHR '';''
         = [p @ ''<'' @ fst e @ ''>'', '' rel='' @ [CHR 0x22] @ snd e @ [CHR 0x22]]"
proof -
  define a where "a = p @ ''<'' @ fst e @ ''>''"
  define b where "b = '' rel='' @ [CHR 0x22] @ snd e @ [CHR 0x22]"
  have 1: "p @ link_entry e = a @ CHR '';'' # b"
    by (simp add: a_def b_def link_entry_def)
  have 2: "CHR '';'' \<notin> set a"
    using assms by (simp add: plain_def a_def)
  have 3: "CHR '';'' \<notin> set b"
    using assms by (simp add: plain_def b_def)
  have "strings_Split (p @ link_entry e) CHR '';'' = [a, b]"
    unfolding 1 by (simp only: Split_at_sep[OF 2] Split_no_sep[OF 3])
  then show ?thesis
    by (simp only: a_def b_def)
qed

lemma TrimSpace_rel:
  "strings_TrimSpace ('' rel='' @ [CHR 0x22] @ r @ [CHR 0x22]) = ''rel='' @ [CHR 0x22] @ r @ [CHR 0x22]"
  by (simp add: strings_TrimSpace_def asciiSpace_def)

lemma TrimSpace_url1: "strings_TrimSpace (''<'' @ u @ ''>'') = ''<'' @ u @ ''>''"
  by (simp add: strings_TrimSpace_def asciiSpace_def)

lemma TrimSpace_url2: "strings_TrimSpace ('' '' @ ''<'' @ u @ ''>'') = ''<'' @ u @ ''>''"
  by (simp add: strings_TrimSpace_def asciiSpace_def)

lemma Trim_brackets: "strings_TrimSuffix (strings_TrimPrefix (''<'' @ u @ ''>'') ''<'') ''>'' = u"
  by (simp add: strings_TrimSuffix_def strings_TrimPrefix_def)

lemma rel_is_next: "(''rel='' @ [CHR 0x22] @ r @ [CHR 0x22] = rel_next) = (r = ''next'')"
  by (auto simp: rel_next_def)

lemma plain_entry_no_comma:
  "plain (fst e) \<Longrightarrow> plain (snd e) \<Longrightarrow> CHR '','' \<notin> set (link_entry e)"
  by (simp add: plain_def link_entry_def)

lemma Split_link_header:
  "plain_entries (e # es) \<Longrightarrow> CHR '','' \<notin> set p \<Longrightarrow>
   strings_Split (p @ link_header (e # es)) CHR '',''
   = (p @ link_entry e) # map (\<lambda>x. '' '' @ link_entry x) es"
proof (induction es arbitrary: e p)
  case Nil
  then show ?case
    by (auto simp: plain_entries_def Split_no_sep plain_entry_no_comma)
next
  case (Cons x xs)
  have pe: "plain (fst e)" "plain (snd e)" and rest: "plain_entries (x # xs)"
    using Cons.prems by (simp_all add: plain_entries_def)
  have nc: "CHR '','' \<notin> set (p @ link_entry e)"
    using Cons.prems(2) plain_entry_no_comma[OF pe] by simp
  have "p @ link_header (e # x # xs)
        = (p @ link_entry e) @ CHR '','' # ('' '' @ link_header (x # xs))"
    by simp
  then have "strings_Split (p @ link_header (e # x # xs)) CHR '',''
             = (p @ link_entry e) # strings_Split ('' '' @ link_header (x # xs)) CHR '',''"
    by (simp only: Split_at_sep[OF nc])
  also have "strings_Split ('' '' @ link_header (x # xs)) CHR '',''
             = ('' '' @ link_entry x) # map (\<lambda>x. '' '' @ link_entry x) xs"
    using Cons.IH[OF rest, of "'' ''"] by simp
  finally show ?case by simp
qed

lemma nextPageLink_pieces:
  assumes "plain_entries es" "list_all (\<lambda>p. p = [] \<or> p = '' '') ps" "length ps = length es"
  shows "nextPageLink (map2 (\<lambda>p e. p @ link_entry e) ps es) = Inr (first_next es)"
  using assms
proof (induction es arbitrary: ps)
  case Nil
  then show ?case by (simp add: first_next_def)
next
  case (Cons e es)
  then obtain p ps' where ps: "ps = p # ps'" by (cases ps) auto
  have pe: "plain (fst e)" "plain (snd e)" and rest: "plain_entries es"
    using Cons.prems by (simp_all add: plain_entries_def)
  have p: "p = [] \<or> p = '' ''" using Cons.prems ps by simp
  then have np: "CHR '';'' \<notin> set p" by auto
  have IH: "nextPageLink (map2 (\<lambda>p e. p @ link_entry e) ps' es) = Inr (first_next es)"
    using Cons.IH[OF rest, of ps'] Cons.prems ps by simp
  have tu: "strings_TrimSpace (p @ ''<'' @ fst e @ ''>'') = ''<'' @ fst e @ ''>''"
    using p TrimSpace_url1 TrimSpace_url2 by auto
  have step: "nextPageLink ((p @ link_entry e) # rest') =
        (if snd e = ''next'' then Inr (Some (fst e)) else nextPageLink rest')" for rest'
    by (simp add: plain_entry_fields[OF pe np] TrimSpace_rel tu Trim_brackets rel_is_next
        del: append.simps append_Cons)
  show ?case
    using IH by (simp add: ps step first_next_def del: nextPageLink.simps)
qed

lemma map2_replicate: "map2 f (replicate (length xs) p) xs = map (f p) xs"
  by (induction xs) auto

lemma nextPageLink_link_header:
  assumes "plain_entries es" "es \<noteq> []"
  shows "nextPageLink (strings_Split (link_header es) CHR '','') = Inr (first_next es)"
proof -
  obtain e es' where es: "es = e # es'" using assms by (cases es) auto
  have "strings_Split (link_header es) CHR '','' = link_entry e # map (\<lambda>x. '' '' @ link_entry x) es'"
    using Split_link_header[of e es' "[]"] assms es by simp
  also have "\<dots> = map2 (\<lambda>p e. p @ link_entry e) ([] # replicate (length es') '' '') es"
    by (simp add: es map2_replicate)
  finally show ?thesis
    using nextPageLink_pieces[OF assms(1), of "[] # replicate (length es') '' ''"]
    by (simp add: es list_all_iff)
qed

lemma link_header_empty: "(link_header es = []) = (es = [])"
  by (induction es rule: link_header.induct) (simp_all add: link_entry_def)

lemma GetPage_request:
  "NewRequest_err c ''GET'' (nextLink g) = None \<Longrightarrow> nextLink g \<noteq> [] \<Longrightarrow>
   GetPage c g =
     (case Do c (pageRequest g) of
        Inl err \<Rightarrow>
          Inl (LogPanic (''Failed to issue http GET on url='' @ nextLink g @ '', err='' @ err))
      | Inr resp \<Rightarrow>
          if Header_Get (RespHeader resp) ''Link'' = [] then Inr (RespBody resp, False, g)
          else case nextPageLink (strings_Split (Header_Get (RespHeader resp) ''Link'') CHR '','') of
                 Inl p \<Rightarrow> Inl p
               | Inr (Some l) \<Rightarrow> Inr (RespBody resp, True, g\<lparr>nextLink := l\<rparr>)
               | Inr None \<Rightarrow> Inr (RespBody resp, False, g))"
  by (auto simp: GetPage_def http_NewRequest_def pageRequest_def Header_Add_def Let_def
      split: sum.splits)

lemma GetPage_serves:
  assumes "serves c g (p # ps)"
  shows "GetPage c g =
           Inr (fst p, first_next (snd p) \<noteq> None,
                (if first_next (snd p) = None then g
                 else g\<lparr>nextLink := the (first_next (snd p))\<rparr>))"
proof -
  from assms obtain resp where
    g: "nextLink g \<noteq> []" "NewRequest_err c ''GET'' (nextLink g) = None" and
    resp: "Do c (pageRequest g) = Inr resp" "RespBody resp = fst p"
          "Header_Get (RespHeader resp) ''Link'' = link_header (snd p)" and
    pl: "plain_entries (snd p)"
    by (auto split: sum.splits)
  show ?thesis
  proof (cases "snd p = []")
    case True
    then show ?thesis
      by (simp add: GetPage_request[OF g(2) g(1)] resp first_next_def)
  next
    case False
    then show ?thesis
      by (auto simp: GetPage_request[OF g(2) g(1)] resp link_header_empty
          nextPageLink_link_header[OF pl False])
  qed
qed

lemma pages_serves:
  "serves c g ps \<Longrightarrow> pages f c g acc = Some (overPages f (map fst ps) acc)"
proof (induction ps arbitrary: g acc)
  case Nil
  then show ?case by simp
next
  case (Cons p ps)
  note gp = GetPage_serves[OF Cons.prems]
  show ?case
  proof (cases "f (fst p) acc")
    case (Inl e)
    then show ?thesis
      by (subst pages.simps) (simp add: gp)
  next
    case (Inr acc')
    show ?thesis
    proof (cases "first_next (snd p) = None")
      case True
      with Cons.prems have "ps = []" by simp
      with True Inr show ?thesis
        by (subst pages.simps) (simp add: gp)
    next
      case False
      then obtain u where u: "first_next (snd p) = Some u" by auto
      with Cons.prems have "serves c (g\<lparr>nextLink := u\<rparr>) ps" by simp
      from Cons.IH[OF this, of acc'] Inr show ?thesis
        by (subst pages.simps) (simp add: gp u)
    qed
  qed
qed

lemma overPages_collectBody: "overPages collectBody bs acc = Inr (acc @ bs)"
  by (induction bs arbitrary: acc) (simp_all add: collectBody_def)

text \<open>
  C3.  Where the upstream serves a chain of pages, each but the last with a \<open>next\<close>
  entry in its \<^verbatim>\<open>Link\<close> header, the walk returns, and it has fetched the body of
  every page once, in order: as many bodies as pages.  A page without a header, or with
  a header that has no \<open>next\<close> entry, is the last one of a chain.
\<close>

theorem pages_fetches_each_page_once:
  assumes "serves c g ps"
  shows "pages collectBody c g [] = Some (Inr (map fst ps))"
  using pages_serves[OF assms, of collectBody "[]"]
  by (simp add: overPages_collectBody)

theorem pages_fetches_each_page_once_witness:
  "serves three_pages (NewPagedGet ''/orgs/Netflix/repos'' []) three_pages_served
   \<and> pages collectBody three_pages (NewPagedGet ''/orgs/Netflix/repos'' []) []
       = Some (Inr [Malformed ''page 1'', Malformed ''page 2'', Malformed ''page 3''])"
proof -
  have s: "serves three_pages (NewPagedGet ''/orgs/Netflix/repos'' []) three_pages_served"
    by (simp add: three_pages_def three_pages_served_def NewPagedGet_def pageRequest_def
        Header_Get_def link_entry_def plain_entries_def plain_def first_next_def)
  have m: "map fst three_pages_served
           = [Malformed ''page 1'', Malformed ''page 2'', Malformed ''page 3'']"
    by (simp add: three_pages_served_def)
  from pages_fetches_each_page_once[OF s] have
    "pages collectBody three_pages (NewPagedGet ''/orgs/Netflix/repos'' []) []
       = Some (Inr [Malformed ''page 1'', Malformed ''page 2'', Malformed ''page 3''])"
    by (simp only: m)
  with s show ?thesis by (rule conjI)
qed

section \<open>Readiness\<close>

lemma Lock_ready: "Lock s = Some s1 \<Longrightarrow> ready s1 = ready s"
  by (auto simp: Lock_def split: if_splits)

lemma refreshRoot_ready: "refreshRoot c s = Some (Inr s') \<Longrightarrow> ready s' = ready s"
  by (auto simp: refreshRoot_def Unlock_def Lock_def split: sum.splits option.splits if_splits)

lemma refreshNetflix_ready: "refreshNetflix c s = Some (Inr s') \<Longrightarrow> ready s' = ready s"
  by (auto simp: refreshNetflix_def Unlock_def Lock_def split: sum.splits option.splits if_splits)

lemma refreshNetflixMembers_ready:
  "refreshNetflixMembers c s = Some (Inr s') \<Longrightarrow> ready s' = ready s"
  by (auto simp: refreshNetflixMembers_def Unlock_def Lock_def
      split: sum.splits option.splits if_splits)

lemma foldl_appendViews_ready: "ready (foldl appendViews s elms) = ready s"
  by (induction elms arbitrary: s) (simp_all add: appendViews_def)

lemma storeRepos_ready: "ready (storeRepos cd repos elms s) = ready s"
  by (simp add: storeRepos_def sortViews_def foldl_appendViews_ready)

lemma refreshNetflixRepos_ready:
  "refreshNetflixRepos cd c s = Some (Inr s') \<Longrightarrow> ready s' = ready s"
  by (auto simp: refreshNetflixRepos_def storeRepos_ready Unlock_def Lock_def
      split: option.splits sum.splits if_splits)

lemma refreshCaches_ready: "refreshCaches cd c s = Some (Inr s') \<Longrightarrow> ready s'"
  by (auto simp: refreshCaches_def Unlock_def Lock_def split: sum.splits option.splits if_splits)

lemma Run_ready: "ready s \<Longrightarrow> Run cd cs s = Some (Inr s') \<Longrightarrow> ready s'"
proof (induction cs arbitrary: s)
  case Nil
  then show ?case by simp
next
  case (Cons c cs)
  from Cons.prems(2) obtain s1 where
    1: "refreshCaches cd c s = Some (Inr s1)" and 2: "Run cd cs s1 = Some (Inr s')"
    by (auto split: option.splits sum.splits)
  from Cons.IH[OF refreshCaches_ready[OF 1] 2] show ?case .
qed

lemma handleViews_ready: "handleViews loc s r = Some (w, s') \<Longrightarrow> ready s' = ready s"
  by (auto simp: handleViews_def Unlock_def Lock_def split: option.splits sum.splits if_splits)

lemma handleHealthCheck_unlocked:
  "\<not> lock s \<Longrightarrow> handleHealthCheck s = Some (if ready s then 200 else 503, s)"
  by (simp add: handleHealthCheck_def Lock_def Unlock_def)

lemma handleHealthCheck_locked: "lock s \<Longrightarrow> handleHealthCheck s = None"
  by (simp add: handleHealthCheck_def Lock_def)

lemma GetPage_one_page:
  "GetPage one_page (NewPagedGet path tok)
   = Inr (Doc (JObject []), False, NewPagedGet path tok)"
  by (simp add: GetPage_simps one_page_def)

lemma pages_one_page:
  "pages f one_page (NewPagedGet path tok) acc = Some (f (Doc (JObject [])) acc)"
  by (subst pages.simps) (simp add: GetPage_one_page split: sum.splits)

lemma refreshNetflixRepos_one_page:
  "\<not> lock s \<Longrightarrow> refreshNetflixRepos cd one_page s = Some (Inr (storeRepos cd [] [] s))"
  by (simp add: refreshNetflixRepos_def pages_one_page appendPage_def json_Unmarshal_def
      Lock_def Unlock_def storeRepos_def sortViews_def)

lemma refreshCaches_one_page_first:
  "refreshCaches github_codec one_page (NewServer 8080 []) = Some (Inr one_page_state)"
  by (simp add: refreshCaches_def refreshRoot_def refreshNetflix_def refreshNetflixMembers_def
      refreshNetflixRepos_one_page GetPage_one_page storeRepos_def sortViews_def sort_Slice_def
      json_Marshal_def NewServer_def one_page_state_def Lock_def Unlock_def)

lemma viewsBody_no_key:
  "viewsBody loc s ''/view/top/5'' = Inl (IndexOutOfRange 4 4)"
  by (simp add: viewsBody_def index_def strings_simps)

text \<open>
  C4.  The flag behaves as the claim says: it is false in the state \<^verbatim>\<open>NewServer\<close>
  builds, no refresh and no handler changes it, a completed cycle sets it, and it stays
  set (the lemmas above).  The health check does not: it reads the flag under the mutex,
  and \<^verbatim>\<open>handleViews\<close> leaves the mutex held when it panics.  After the first cycle
  the health check answers 200; after a request for \<^verbatim>\<open>/view/top/5\<close>, which panics at
  \<^verbatim>\<open>tokens[4]\<close>, the flag is still true and the health check answers nothing.
\<close>

theorem handleHealthCheck_blocks_after_view_panic:
  "refreshCaches github_codec one_page (NewServer 8080 []) = Some (Inr one_page_state)
   \<and> ready one_page_state
   \<and> handleHealthCheck one_page_state = Some (200, one_page_state)
   \<and> handleViews utc one_page_state (get ''/view/top/5'')
       = Some (Inl (IndexOutOfRange 4 4), one_page_state\<lparr>lock := True\<rparr>)
   \<and> ready (one_page_state\<lparr>lock := True\<rparr>)
   \<and> handleHealthCheck (one_page_state\<lparr>lock := True\<rparr>) = None"
  by (simp add: refreshCaches_one_page_first handleHealthCheck_unlocked handleHealthCheck_locked
      handleViews_def viewsBody_no_key get_def Lock_def)
     (simp add: one_page_state_def)

section \<open>The loop over the pages\<close>

lemma pages_invariant_aux:
  "pages f c g acc = Some r \<Longrightarrow> P acc \<Longrightarrow> (\<forall>b a a'. f b a = Inr a' \<longrightarrow> P a \<longrightarrow> P a') \<Longrightarrow>
   (case r of Inl p \<Rightarrow> True | Inr acc' \<Rightarrow> P acc')"
proof (induction f c g acc r rule: pages.raw_induct[rotated 1, consumes 1, case_names step])
  case (step pages' f c g acc r)
  show ?case
  proof (cases "GetPage c g")
    case (Inl p)
    with step.hyps show ?thesis by auto
  next
    case (Inr t)
    obtain b nxt g' where t: "t = (b, nxt, g')" by (cases t)
    show ?thesis
    proof (cases "f b acc")
      case (Inl p)
      with step.hyps Inr t show ?thesis by auto
    next
      case fr: (Inr acc1)
      with step.prems have P1: "P acc1" by blast
      show ?thesis
      proof (cases nxt)
        case True
        from step.hyps Inr t fr True have a: "pages' f c g' acc1 = Some r" by simp
        from step.IH[OF a P1] step.prems show ?thesis by blast
      next
        case False
        with step.hyps Inr t fr P1 show ?thesis by auto
      qed
    qed
  qed
qed

lemma pages_invariant:
  assumes "pages f c g acc = Some (Inr acc')" "P acc"
    "\<And>b a a'. f b a = Inr a' \<Longrightarrow> P a \<Longrightarrow> P a'"
  shows "P acc'"
  using pages_invariant_aux[OF assms(1), of P] assms(2,3) by auto

section \<open>The views\<close>

lemma mset_sink: "mset (sink lt x ys) = add_mset x (mset ys)"
  by (induction ys) auto

lemma mset_foldl_sink: "mset (foldl (\<lambda>acc x. sink lt x acc) acc xs) = mset acc + mset xs"
  by (induction xs arbitrary: acc) (simp_all add: mset_sink)

lemma mset_sort_Slice: "mset (sort_Slice lt xs) = mset xs"
  by (simp add: sort_Slice_def mset_foldl_sink)

lemma foldl_appendViews:
  "foldl appendViews s elms =
     s\<lparr>topForks := topForks s @ elms, lastUpdated := lastUpdated s @ elms,
       topOpenIssues := topOpenIssues s @ elms, topStars := topStars s @ elms\<rparr>"
  by (induction elms arbitrary: s) (simp_all add: appendViews_def)

lemma storeRepos_eq:
  "storeRepos cd repos elms s =
     s\<lparr>caches := (caches s)(kGitHubNetflixRepos \<mapsto> json_Marshal cd repos),
       topForks := sort_Slice (\<lambda>a b. forks a > forks b) elms,
       lastUpdated := sort_Slice (\<lambda>a b. updated a > updated b) elms,
       topOpenIssues := sort_Slice (\<lambda>a b. openIssues a > openIssues b) elms,
       topStars := sort_Slice (\<lambda>a b. stars a > stars b) elms\<rparr>"
  by (simp add: storeRepos_def foldl_appendViews sortViews_def)

lemma appendRepos_pairs:
  "appendRepos rs (repos, elms) = Inr (repos', elms') \<Longrightarrow>
   map newViewElm repos = map Inr elms \<Longrightarrow> map newViewElm repos' = map Inr elms'"
  by (induction rs arbitrary: repos elms) (auto split: sum.splits)

lemma appendPage_pairs:
  "appendPage cd b acc = Inr acc' \<Longrightarrow>
   map newViewElm (fst acc) = map Inr (snd acc) \<Longrightarrow> map newViewElm (fst acc') = map Inr (snd acc')"
  using appendRepos_pairs[of _ "fst acc" "snd acc" "fst acc'" "snd acc'"]
  by (simp add: appendPage_def)

lemma pages_appendPage_pairs:
  assumes "pages (appendPage cd) c g ([], []) = Some (Inr (repos, elms))"
  shows "map newViewElm repos = map Inr elms"
  using pages_invariant[OF assms, of "\<lambda>acc. map newViewElm (fst acc) = map Inr (snd acc)"]
    appendPage_pairs
  by auto

lemma refresh_sameRecords:
  "refreshRoot c s = Some (Inr s') \<Longrightarrow> sameRecords s' = sameRecords s"
  "refreshNetflix c s = Some (Inr s') \<Longrightarrow> sameRecords s' = sameRecords s"
  "refreshNetflixMembers c s = Some (Inr s') \<Longrightarrow> sameRecords s' = sameRecords s"
  by (auto simp: refreshRoot_def refreshNetflix_def refreshNetflixMembers_def sameRecords_def
      Lock_def Unlock_def split: sum.splits option.splits if_splits)

lemma refreshNetflixRepos_views:
  assumes "refreshNetflixRepos cd c s = Some (Inr s')"
  shows "\<exists>repos elms.
           pages (appendPage cd) c (NewPagedGet kGitHubNetflixRepos (apiToken s)) ([], [])
             = Some (Inr (repos, elms))
           \<and> mset (topForks s') = mset elms \<and> mset (lastUpdated s') = mset elms
           \<and> mset (topOpenIssues s') = mset elms \<and> mset (topStars s') = mset elms"
  using assms
  by (auto simp: refreshNetflixRepos_def storeRepos_eq mset_sort_Slice Lock_def Unlock_def
      split: option.splits sum.splits if_splits)

lemma refreshNetflixRepos_sameRecords:
  "refreshNetflixRepos cd c s = Some (Inr s') \<Longrightarrow> sameRecords s'"
  using refreshNetflixRepos_views[of cd c s s'] by (auto simp: sameRecords_def)

lemma refreshCaches_sameRecords:
  "refreshCaches cd c s = Some (Inr s') \<Longrightarrow> sameRecords s'"
  by (auto simp: refreshCaches_def sameRecords_def Lock_def Unlock_def
      split: sum.splits option.splits if_splits dest!: refreshNetflixRepos_sameRecords)

lemma Run_sameRecords:
  "sameRecords s \<Longrightarrow> Run cd cs s = Some (Inr s') \<Longrightarrow> sameRecords s'"
proof (induction cs arbitrary: s)
  case Nil
  then show ?case by simp
next
  case (Cons c cs)
  from Cons.prems(2) obtain s1 where
    1: "refreshCaches cd c s = Some (Inr s1)" and 2: "Run cd cs s1 = Some (Inr s')"
    by (auto split: option.splits sum.splits)
  from Cons.IH[OF refreshCaches_sameRecords[OF 1] 2] show ?case .
qed

text \<open>
  C5.  A refresh of the repositories that completes, from any state, leaves four views
  that are each a permutation of the elements made in this refresh (one element for
  each repository decoded from the pages of this walk): the elements of an earlier
  refresh are gone from all four.  Hence in every state the server is in when a cycle
  has completed, the four views hold the same records, each as often as the others.
\<close>

theorem views_permute_one_generation:
  "(refreshNetflixRepos cd c s = Some (Inr s') \<longrightarrow>
      (\<exists>repos elms.
         pages (appendPage cd) c (NewPagedGet kGitHubNetflixRepos (apiToken s)) ([], [])
           = Some (Inr (repos, elms))
         \<and> map newViewElm repos = map Inr elms
         \<and> mset (topForks s') = mset elms \<and> mset (lastUpdated s') = mset elms
         \<and> mset (topOpenIssues s') = mset elms \<and> mset (topStars s') = mset elms))
   \<and> (Run cd cs (NewServer p tok) = Some (Inr s'') \<longrightarrow> sameRecords s'')"
proof (intro conjI impI)
  assume r: "refreshNetflixRepos cd c s = Some (Inr s')"
  from refreshNetflixRepos_views[OF r] obtain repos elms where
    w: "pages (appendPage cd) c (NewPagedGet kGitHubNetflixRepos (apiToken s)) ([], [])
          = Some (Inr (repos, elms))" and
    v: "mset (topForks s') = mset elms" "mset (lastUpdated s') = mset elms"
       "mset (topOpenIssues s') = mset elms" "mset (topStars s') = mset elms"
    by blast
  from pages_appendPage_pairs[OF w] w v
  show "\<exists>repos elms.
         pages (appendPage cd) c (NewPagedGet kGitHubNetflixRepos (apiToken s)) ([], [])
           = Some (Inr (repos, elms))
         \<and> map newViewElm repos = map Inr elms
         \<and> mset (topForks s') = mset elms \<and> mset (lastUpdated s') = mset elms
         \<and> mset (topOpenIssues s') = mset elms \<and> mset (topStars s') = mset elms"
    by blast
next
  assume "Run cd cs (NewServer p tok) = Some (Inr s'')"
  moreover have "sameRecords (NewServer p tok)"
    by (simp add: sameRecords_def NewServer_def)
  ultimately show "sameRecords s''" by (rule Run_sameRecords[rotated])
qed

lemma GetPage_two_repos:
  "GetPage two_repos (NewPagedGet path tok)
   = Inr (Doc (JArray [repoA, repoB]), False, NewPagedGet path tok)"
  by (simp add: GetPage_simps two_repos_def)

lemma pages_two_repos:
  "pages f two_repos (NewPagedGet path tok) acc = Some (f (Doc (JArray [repoA, repoB])) acc)"
  by (subst pages.simps) (simp add: GetPage_two_repos split: sum.splits)

lemma appendPage_two_repos:
  "appendPage github_codec (Doc (JArray [repoA, repoB])) (repos, elms)
   = Inr (repos @ map (\<lambda>j. snd (decodeElement github_codec j)) [repoA, repoB],
          elms @ [elmA, elmB])"
  by (simp add: appendPage_def json_Unmarshal_def decodeElement_def github_codec_def repoA_def
      repoB_def stringMember_def intMember_def newViewElm_def elmA_def elmB_def)

lemma sorted_two_repos:
  "sort_Slice (\<lambda>a b. forks a > forks b) [elmA, elmB] = [elmB, elmA]"
  "sort_Slice (\<lambda>a b. updated a > updated b) [elmA, elmB] = [elmA, elmB]"
  "sort_Slice (\<lambda>a b. openIssues a > openIssues b) [elmA, elmB] = [elmA, elmB]"
  "sort_Slice (\<lambda>a b. stars a > stars b) [elmA, elmB] = [elmA, elmB]"
  by (simp_all add: sort_Slice_def elmA_def elmB_def)

lemma Marshal_two_repos:
  "json_Marshal github_codec (map (\<lambda>j. snd (decodeElement github_codec j)) [repoA, repoB])
   = Doc (JArray [repoA, repoB])"
  by (simp add: json_Marshal_def decodeElement_def github_codec_def repoA_def repoB_def
      stringMember_def intMember_def)

lemma refreshNetflixRepos_two_repos:
  "\<not> lock s \<Longrightarrow>
   refreshNetflixRepos github_codec two_repos s
   = Some (Inr (s\<lparr>caches := (caches s)(kGitHubNetflixRepos \<mapsto> Doc (JArray [repoA, repoB])),
                  topForks := [elmB, elmA], lastUpdated := [elmA, elmB],
                  topOpenIssues := [elmA, elmB], topStars := [elmA, elmB]\<rparr>))"
  by (simp add: refreshNetflixRepos_def pages_two_repos appendPage_two_repos storeRepos_eq
      sorted_two_repos Marshal_two_repos Lock_def Unlock_def del: list.map)

lemma refreshCaches_two_repos_first:
  "refreshCaches github_codec two_repos (NewServer 8080 []) = Some (Inr two_repos_state)"
  by (simp add: refreshCaches_def refreshRoot_def refreshNetflix_def refreshNetflixMembers_def
      refreshNetflixRepos_two_repos GetPage_two_repos NewServer_def two_repos_state_def
      Lock_def Unlock_def)

lemma refreshNetflixRepos_two_repos_again:
  "refreshNetflixRepos github_codec two_repos two_repos_state = Some (Inr two_repos_state)"
  by (simp add: refreshNetflixRepos_two_repos two_repos_state_def)

theorem views_permute_one_generation_witness:
  "refreshNetflixRepos github_codec two_repos two_repos_state = Some (Inr two_repos_state)
   \<and> mset (topForks two_repos_state) = mset [elmA, elmB]
   \<and> mset (lastUpdated two_repos_state) = mset [elmA, elmB]
   \<and> mset (topOpenIssues two_repos_state) = mset [elmA, elmB]
   \<and> mset (topStars two_repos_state) = mset [elmA, elmB]
   \<and> Run github_codec [two_repos] (NewServer 8080 []) = Some (Inr two_repos_state)
   \<and> sameRecords two_repos_state"
proof -
  have r: "refreshNetflixRepos github_codec two_repos two_repos_state = Some (Inr two_repos_state)"
    by (rule refreshNetflixRepos_two_repos_again)
  have n: "Run github_codec [two_repos] (NewServer 8080 []) = Some (Inr two_repos_state)"
    by (simp add: refreshCaches_two_repos_first)
  have w: "pages (appendPage github_codec) two_repos
             (NewPagedGet kGitHubNetflixRepos (apiToken two_repos_state)) ([], [])
           = Some (Inr (map (\<lambda>j. snd (decodeElement github_codec j)) [repoA, repoB],
                        [elmA, elmB]))"
    by (simp add: pages_two_repos appendPage_two_repos del: list.map)
  from views_permute_one_generation[of github_codec two_repos two_repos_state two_repos_state
      "[two_repos]" 8080 "[]" two_repos_state] r n
  have "\<exists>repos elms.
         pages (appendPage github_codec) two_repos
           (NewPagedGet kGitHubNetflixRepos (apiToken two_repos_state)) ([], [])
           = Some (Inr (repos, elms))
         \<and> map newViewElm repos = map Inr elms
         \<and> mset (topForks two_repos_state) = mset elms
         \<and> mset (lastUpdated two_repos_state) = mset elms
         \<and> mset (topOpenIssues two_repos_state) = mset elms
         \<and> mset (topStars two_repos_state) = mset elms"
    and s: "sameRecords two_repos_state"
    by blast+
  with w have "mset (topForks two_repos_state) = mset [elmA, elmB]"
    "mset (lastUpdated two_repos_state) = mset [elmA, elmB]"
    "mset (topOpenIssues two_repos_state) = mset [elmA, elmB]"
    "mset (topStars two_repos_state) = mset [elmA, elmB]"
    by auto
  with r n s show ?thesis by blast
qed

section \<open>The top N of a view\<close>

lemma viewsLoop_done: "\<not> ii < cnt \<Longrightarrow> viewsLoop loc s sortBy cnt ii out = Inr out"
  by (simp add: viewsLoop.simps)

lemma viewsLoop_step:
  "ii < cnt \<Longrightarrow>
   viewsLoop loc s sortBy cnt ii out =
     (case viewElmText loc s sortBy ii of
        Inl p \<Rightarrow> Inl p
      | Inr elm \<Rightarrow>
          viewsLoop loc s sortBy cnt (ii + 1) (out @ elm @ (if ii < cnt - 1 then '','' else [])))"
  by (subst viewsLoop.simps) simp

lemmas views_simps =
  handleViews_def viewsBody_def viewsLoop_done viewsLoop_step viewElmText_def index_def
  pairText_def quoted_def get_def Lock_def Unlock_def Atoi_def digitVal_def strings_simps
  show_simps

lemma two_repos_state_views:
  "topForks two_repos_state = [elmB, elmA]" "lastUpdated two_repos_state = [elmA, elmB]"
  "topOpenIssues two_repos_state = [elmA, elmB]" "topStars two_repos_state = [elmA, elmB]"
  "lock two_repos_state = False"
  by (simp_all add: two_repos_state_def)

text \<open>With the key \<^verbatim>\<open>forks\<close>, the loop panics whenever the count is above the size
  of the view: at the index that is the size.\<close>

lemma viewsLoop_forks_beyond_size:
  "0 \<le> ii \<Longrightarrow> nat ii \<le> length (topForks s) \<Longrightarrow> int (length (topForks s)) < cnt \<Longrightarrow>
   viewsLoop loc s ''forks'' cnt ii out
   = Inl (IndexOutOfRange (length (topForks s)) (length (topForks s)))"
proof (induction "length (topForks s) - nat ii" arbitrary: ii out)
  case 0
  then have "nat ii = length (topForks s)" "ii < cnt" by simp_all
  then show ?case
    by (simp add: viewsLoop_step viewElmText_def index_def)
next
  case (Suc k)
  then have lt: "nat ii < length (topForks s)" "ii < cnt" by simp_all
  have "k = length (topForks s) - nat (ii + 1)" using Suc.hyps(2) Suc.prems(1) by simp
  from Suc.hyps(1)[OF this, of "out @ pairText (name (topForks s ! nat ii))
      (showInt (forks (topForks s ! nat ii))) @ (if ii < cnt - 1 then '','' else [])"]
    Suc.prems lt
  show ?case
    by (simp add: viewsLoop_step[OF lt(2)] viewElmText_def index_def)
qed

text \<open>
  C1.  The claim: the top \<open>n\<close> of a view is its first \<open>min n (size view)\<close> elements,
  and a count above the size is clamped.  The code indexes the view at every
  \<open>ii < count\<close> with no bound on \<open>count\<close>.  On the state with the two repositories
  \<open>A\<close> (5 forks, 10 stars) and \<open>B\<close> (9 forks, 2 stars) the top 1 and the top 2 are the
  first elements of the view in descending order; the top 3 panics at index 2 of a
  view of length 2, with the mutex held.
\<close>

theorem handleViews_count_above_size_panics:
  \<open>handleViews utc two_repos_state (get ''/view/top/1/forks'')
     = Some (Inr \<lparr>Status = 200, Headers = [], Payload = ''[["Netflix/B",9]]''\<rparr>, two_repos_state)
   \<and> handleViews utc two_repos_state (get ''/view/top/1/stars'')
     = Some (Inr \<lparr>Status = 200, Headers = [], Payload = ''[["Netflix/A",10]]''\<rparr>, two_repos_state)
   \<and> handleViews utc two_repos_state (get ''/view/top/2/forks'')
     = Some (Inr \<lparr>Status = 200, Headers = [],
                   Payload = ''[["Netflix/B",9],["Netflix/A",5]]''\<rparr>, two_repos_state)
   \<and> handleViews utc two_repos_state (get ''/view/top/3/forks'')
     = Some (Inl (IndexOutOfRange 2 2), two_repos_state\<lparr>lock := True\<rparr>)\<close>
  by (simp add: views_simps two_repos_state_views elmA_def elmB_def)

section \<open>View requests with invalid parameters\<close>

lemma Atoi_syntax_zero: "snd (Atoi n) = Some ErrSyntax \<Longrightarrow> fst (Atoi n) = 0"
  by (auto simp: Atoi_def Let_def split: if_splits sum.splits numError.splits)

lemma viewsBody_no_elements:
  assumes "strings_Split (strings_TrimSpace path) CHR ''/'' = a # b # c # n # k # rest"
    and "fst (Atoi n) \<le> 0"
  shows "viewsBody loc s path = Inr ''[]''"
  using assms by (simp add: viewsBody_def index_def viewsLoop_done)

text \<open>
  C6, as amended.  For a view request, received while the mutex is free, whose path has
  its count and key segments and whose count is negative or not a number, the handler
  answers with status 200 and the
  body \<^verbatim>\<open>[]\<close>, whatever the key, and releases the mutex: the error of
  \<^verbatim>\<open>strconv.Atoi\<close> is dropped, and no handler of the server writes an error status
  for a parameter.
\<close>

theorem handleViews_bad_count_empty_success:
  assumes "\<not> lock s"
    and "strings_Split (strings_TrimSpace (reqPath r)) CHR ''/'' = a # b # c # n # k # rest"
    and "fst (Atoi n) < 0 \<or> snd (Atoi n) = Some ErrSyntax"
  shows "handleViews loc s r = Some (Inr \<lparr>Status = 200, Headers = [], Payload = ''[]''\<rparr>, s)"
proof -
  from assms(3) have "fst (Atoi n) \<le> 0"
    using Atoi_syntax_zero[of n] by auto
  from viewsBody_no_elements[OF _ this, of "reqPath r" a b c k rest loc "s\<lparr>lock := True\<rparr>"] assms(1,2)
  show ?thesis
    by (simp add: handleViews_def Lock_def Unlock_def)
qed

theorem handleViews_bad_count_empty_success_witness:
  "\<not> lock two_repos_state
   \<and> strings_Split (strings_TrimSpace (reqPath (get ''/view/top/abc/forks''))) CHR ''/''
       = [[], ''view'', ''top'', ''abc'', ''forks'']
   \<and> snd (Atoi ''abc'') = Some ErrSyntax
   \<and> handleViews utc two_repos_state (get ''/view/top/abc/forks'')
       = Some (Inr \<lparr>Status = 200, Headers = [], Payload = ''[]''\<rparr>, two_repos_state)"
proof -
  have 1: "\<not> lock two_repos_state" by (simp add: two_repos_state_def)
  have 2: "strings_Split (strings_TrimSpace (reqPath (get ''/view/top/abc/forks''))) CHR ''/''
           = [[], ''view'', ''top'', ''abc'', ''forks'']"
    by (simp add: get_def strings_simps)
  have 3: "snd (Atoi ''abc'') = Some ErrSyntax" by (simp add: Atoi_def digitVal_def)
  from handleViews_bad_count_empty_success[OF 1 2, of utc] 1 2 3 show ?thesis by blast
qed

text \<open>
  C6.  The claim as stated fails: a negative count and a count that is not a number are
  answered with status 200 and an empty array, and an unknown key with status 200 and a
  body that is not JSON; none with an error response.
\<close>

theorem handleViews_invalid_parameters_succeed:
  \<open>handleViews utc two_repos_state (get ''/view/top/-1/forks'')
     = Some (Inr \<lparr>Status = 200, Headers = [], Payload = ''[]''\<rparr>, two_repos_state)
   \<and> handleViews utc two_repos_state (get ''/view/top/abc/forks'')
     = Some (Inr \<lparr>Status = 200, Headers = [], Payload = ''[]''\<rparr>, two_repos_state)
   \<and> handleViews utc two_repos_state (get ''/view/top/2/watchers'')
     = Some (Inr \<lparr>Status = 200, Headers = [], Payload = ''[,]''\<rparr>, two_repos_state)\<close>
  by (simp add: views_simps two_repos_state_views)

section \<open>The pass-through proxy\<close>

text \<open>
  C8, as amended.  For a request to a path other than \<^verbatim>\<open>/\<close> that reaches
  \<^verbatim>\<open>handleRoot\<close>, the proxy sends upstream a \<^verbatim>\<open>GET\<close> request, whatever the method of
  the incoming request, for the same URL on \<^verbatim>\<open>api.github.com\<close> with the headers and the
  body of the incoming request, and writes the body of the upstream's response (with
  status 200 and none of its headers); a transport error is a panic.
\<close>

theorem Forward_sends_GET_with_headers_and_body:
  assumes "reqPath r \<noteq> ''/''"
    and "NewRequest_err c ''GET'' (''https://api.github.com'' @ reqURL r) = None"
  shows "handleRoot c s r =
           Some (case Do c \<lparr>Method = ''GET'', URL = ''https://api.github.com'' @ reqURL r,
                            Header = reqHeader r, Body = reqBody r\<rparr> of
                   Inl err \<Rightarrow>
                     Inl (LogPanic (''Failed to issue http GET on url=https://api.github.com''
                                    @ reqURL r @ '', err='' @ err))
                 | Inr resp \<Rightarrow> Inr \<lparr>Status = 200, Headers = [], Payload = RespBody resp\<rparr>, s)"
  using assms by (simp add: handleRoot_def Forward_def http_NewRequest_def)

theorem Forward_sends_GET_with_headers_and_body_witness:
  "reqPath post_gists \<noteq> ''/''
   \<and> NewRequest_err echo_method ''GET'' (''https://api.github.com'' @ reqURL post_gists) = None
   \<and> handleRoot echo_method two_repos_state post_gists
       = Some (Inr \<lparr>Status = 200, Headers = [], Payload = Malformed ''GET''\<rparr>, two_repos_state)"
proof -
  have 1: "reqPath post_gists \<noteq> ''/''" by (simp add: post_gists_def)
  have 2: "NewRequest_err echo_method ''GET'' (''https://api.github.com'' @ reqURL post_gists) = None"
    by (simp add: echo_method_def)
  from Forward_sends_GET_with_headers_and_body[OF 1 2, of two_repos_state] 1 2 show ?thesis
    by (simp add: echo_method_def)
qed

text \<open>
  C8.  The claim as stated fails on the method: a \<^verbatim>\<open>POST\<close> request is forwarded as a
  \<^verbatim>\<open>GET\<close>.  The upstream here answers with the method it receives.
\<close>

theorem Forward_does_not_keep_the_method:
  "reqMethod post_gists = ''POST''
   \<and> Forward echo_method post_gists
       = Inr \<lparr>Status = 200, Headers = [], Payload = Malformed ''GET''\<rparr>"
  by (simp add: Forward_def http_NewRequest_def echo_method_def post_gists_def)

section \<open>Failures of a fetch\<close>











section \<open>Pages that do not decode\<close>

lemma Unmarshal_undecodable: "undecodable b \<Longrightarrow> json_Unmarshal cd b = (True, [])"
  by (auto simp: undecodable_def json_Unmarshal_def split: body.splits json.splits)

lemma appendPage_undecodable: "undecodable b \<Longrightarrow> appendPage cd b acc = Inr acc"
  by (simp add: appendPage_def Unmarshal_undecodable)

lemma overPages_skip:
  "(\<And>acc. f b acc = Inr acc) \<Longrightarrow> overPages f (bs1 @ b # bs2) acc = overPages f (bs1 @ bs2) acc"
  by (induction bs1 arbitrary: acc) (auto split: sum.splits)

lemma storeRepos_unlocked:
  "\<not> lock s \<Longrightarrow> Unlock (storeRepos cd repos elms (s\<lparr>lock := True\<rparr>)) = storeRepos cd repos elms s"
  by (simp add: storeRepos_eq Unlock_def)

text \<open>
  C10, as amended.  In the refresh of the repositories, run while the mutex is free, a
  page whose body is not JSON, or is a JSON value other than an array, is skipped
  without a trace:
  \<^verbatim>\<open>json.Unmarshal\<close> returns an error that is dropped and leaves the slice empty, the
  loop goes on to the pages after it, and what the refresh publishes (or the panic it
  ends in) is what the pages before and after it give, as if the page were not there.
\<close>

theorem undecodable_page_is_skipped:
  assumes "\<not> lock s"
    and "serves c (NewPagedGet kGitHubNetflixRepos (apiToken s)) ps"
    and "map fst ps = bs1 @ b # bs2"
    and "undecodable b"
  shows "json_Unmarshal cd b = (True, [])
         \<and> refreshNetflixRepos cd c s =
             (case overPages (appendPage cd) (bs1 @ bs2) ([], []) of
                Inl p \<Rightarrow> Some (Inl p)
              | Inr (repos, elms) \<Rightarrow> Some (Inr (storeRepos cd repos elms s)))"
proof -
  have "pages (appendPage cd) c (NewPagedGet kGitHubNetflixRepos (apiToken s)) ([], [])
        = Some (overPages (appendPage cd) (bs1 @ bs2) ([], []))"
    using pages_serves[OF assms(2), of "appendPage cd" "([], [])"]
      overPages_skip[of "appendPage cd" b bs1 bs2 "([], [])"]
      appendPage_undecodable[OF assms(4), of cd]
    by (simp add: assms(3))
  then show ?thesis
    using assms(1) Unmarshal_undecodable[OF assms(4), of cd]
    by (auto simp: refreshNetflixRepos_def Lock_def storeRepos_unlocked split: sum.splits)
qed

lemma appendPage_repoA:
  "appendPage github_codec (Doc (JArray [repoA])) (repos, elms)
   = Inr (repos @ [snd (decodeElement github_codec repoA)], elms @ [elmA])"
  by (simp add: appendPage_def json_Unmarshal_def decodeElement_def github_codec_def repoA_def
      stringMember_def intMember_def newViewElm_def elmA_def)

lemma appendPage_repoB:
  "appendPage github_codec (Doc (JArray [repoB])) (repos, elms)
   = Inr (repos @ [snd (decodeElement github_codec repoB)], elms @ [elmB])"
  by (simp add: appendPage_def json_Unmarshal_def decodeElement_def github_codec_def repoB_def
      stringMember_def intMember_def newViewElm_def elmB_def)

theorem undecodable_page_is_skipped_witness:
  "\<not> lock (NewServer 8080 [])
   \<and> serves broken_middle_page (NewPagedGet kGitHubNetflixRepos (apiToken (NewServer 8080 [])))
        broken_middle_page_served
   \<and> map fst broken_middle_page_served
       = [Doc (JArray [repoA])] @ Malformed ''<html>Bad Gateway</html>'' # [Doc (JArray [repoB])]
   \<and> undecodable (Malformed ''<html>Bad Gateway</html>'')
   \<and> json_Unmarshal github_codec (Malformed ''<html>Bad Gateway</html>'') = (True, [])
   \<and> refreshNetflixRepos github_codec broken_middle_page (NewServer 8080 [])
       = Some (Inr ((NewServer 8080 [])
            \<lparr>caches := [kGitHubNetflixRepos \<mapsto> Doc (JArray [repoA, repoB])],
              topForks := [elmB, elmA], lastUpdated := [elmA, elmB],
              topOpenIssues := [elmA, elmB], topStars := [elmA, elmB]\<rparr>))"
proof -
  have 1: "\<not> lock (NewServer 8080 [])" by (simp add: NewServer_def)
  have 2: "serves broken_middle_page (NewPagedGet kGitHubNetflixRepos (apiToken (NewServer 8080 [])))
             broken_middle_page_served"
    by (simp add: broken_middle_page_def broken_middle_page_served_def NewPagedGet_def
        pageRequest_def Header_Get_def link_entry_def plain_entries_def plain_def first_next_def
        kGitHubNetflixRepos_def NewServer_def)
  have 3: "map fst broken_middle_page_served
           = [Doc (JArray [repoA])] @ Malformed ''<html>Bad Gateway</html>'' # [Doc (JArray [repoB])]"
    by (simp add: broken_middle_page_served_def)
  have 4: "undecodable (Malformed ''<html>Bad Gateway</html>'')"
    by (simp add: undecodable_def)
  have 5: "overPages (appendPage github_codec) ([Doc (JArray [repoA])] @ [Doc (JArray [repoB])])
             ([], [])
           = Inr (map (\<lambda>j. snd (decodeElement github_codec j)) [repoA, repoB], [elmA, elmB])"
    by (simp add: appendPage_repoA appendPage_repoB)
  have 6: "storeRepos github_codec (map (\<lambda>j. snd (decodeElement github_codec j)) [repoA, repoB])
             [elmA, elmB] (NewServer 8080 [])
           = (NewServer 8080 [])
               \<lparr>caches := [kGitHubNetflixRepos \<mapsto> Doc (JArray [repoA, repoB])],
                 topForks := [elmB, elmA], lastUpdated := [elmA, elmB],
                 topOpenIssues := [elmA, elmB], topStars := [elmA, elmB]\<rparr>"
    by (simp add: storeRepos_eq sorted_two_repos Marshal_two_repos NewServer_def del: list.map)
  from undecodable_page_is_skipped[OF 1 2 3 4, of github_codec] 1 2 3 4 show ?thesis
    by (simp only: 5 6 sum.case prod.case simp_thms)
qed

text \<open>
  C10.  The claim as stated fails: a body can fail to decode and not be skipped.  The array
  of the repository \<open>A\<close> and the number 5 is decoded to its end, the error is returned
  (and dropped), and the element made for the number has nil fields: the loop panics at
  \<^verbatim>\<open>*r.Name\<close>, and nothing is published.
\<close>

theorem failed_decode_is_not_always_skipped:
  "fst (json_Unmarshal github_codec (Doc (JArray [repoA, JNumber 5])))
   \<and> snd (json_Unmarshal github_codec (Doc (JArray [repoA, JNumber 5])))
       = [snd (decodeElement github_codec repoA), Some zeroRepository]
   \<and> refreshNetflixRepos github_codec bad_element (NewServer 8080 []) = Some (Inl NilDereference)"
proof -
  have g: "GetPage bad_element (NewPagedGet path tok)
           = Inr (Doc (JArray [repoA, JNumber 5]), False, NewPagedGet path tok)" for path tok
    by (simp add: GetPage_simps bad_element_def)
  have p: "pages f bad_element (NewPagedGet path tok) acc
           = Some (f (Doc (JArray [repoA, JNumber 5])) acc)" for f path tok and acc :: 'a
    by (subst pages.simps) (simp add: g split: sum.splits)
  have a: "appendPage github_codec (Doc (JArray [repoA, JNumber 5])) ([], []) = Inl NilDereference"
    by (simp add: appendPage_def json_Unmarshal_def decodeElement_def github_codec_def repoA_def
        stringMember_def intMember_def newViewElm_def zeroRepository_def)
  show ?thesis
    by (simp add: refreshNetflixRepos_def p a)
       (simp add: json_Unmarshal_def decodeElement_def)
qed

section \<open>The text of a last-updated time\<close>

text \<open>
  C7.  The claim: the time is written as a UTC timestamp, the same on every server.
  The code writes the wall-clock time of the server's own zone and strips the one
  suffix \<^verbatim>\<open>-0700 PDT\<close> before it appends \<^verbatim>\<open>Z\<close>.  For \<open>A\<close>, updated at
  2018-05-01T17:20:30Z, and \<open>B\<close>, updated at 2018-01-01T16:20:30Z: a server on Pacific
  time writes 10:20:30 for \<open>A\<close>, seven hours off the UTC time it marks with \<^verbatim>\<open>Z\<close>,
  and for \<open>B\<close>, in winter, the offset and the zone name are left in the text; a server
  in UTC writes other texts for the same two instants, the zone in them as well.
\<close>

theorem last_updated_text_depends_on_the_zone:
  \<open>handleViews pacific two_repos_state (get ''/view/top/2/last_updated'')
     = Some (Inr \<lparr>Status = 200, Headers = [],
                   Payload = ''[["Netflix/A","2018-05-01 10:20:30 Z"],["Netflix/B","2018-01-01 08:20:30 -0800 PSTZ"]]''\<rparr>,
             two_repos_state)
   \<and> handleViews utc two_repos_state (get ''/view/top/2/last_updated'')
     = Some (Inr \<lparr>Status = 200, Headers = [],
                   Payload = ''[["Netflix/A","2018-05-01 17:20:30 +0000 UTCZ"],["Netflix/B","2018-01-01 16:20:30 +0000 UTCZ"]]''\<rparr>,
             two_repos_state)\<close>
proof -
  have t: "Time_String pacific (updated elmA) = ''2018-05-01 10:20:30 -0700 PDT''"
    "Time_String pacific (updated elmB) = ''2018-01-01 08:20:30 -0800 PST''"
    "Time_String utc (updated elmA) = ''2018-05-01 17:20:30 +0000 UTC''"
    "Time_String utc (updated elmB) = ''2018-01-01 16:20:30 +0000 UTC''"
    by (simp_all add: time_simps show_simps pacific_def pdt_def pst_def utc_def elmA_def elmB_def)
  have n: "name elmA = ''A''" "name elmB = ''B''"
    by (simp_all add: elmA_def elmB_def)
  show ?thesis
    by (simp add: handleViews_def viewsBody_def viewsLoop_done viewsLoop_step viewElmText_def
        index_def pairText_def quoted_def get_def Lock_def Unlock_def Atoi_def digitVal_def
        strings_simps two_repos_state_views t n)
qed

section \<open>The order of a view\<close>

lemma set_sink: "set (sink lt x ys) = insert x (set ys)"
  by (induction ys) auto

lemma sink_sorted:
  "sorted_wrt (\<lambda>a b. k a \<le> k b) ys \<Longrightarrow>
   sorted_wrt (\<lambda>a b. k a \<le> k b) (sink (\<lambda>a b. k a > k b) x ys)"
  for k :: "'a \<Rightarrow> int"
  by (induction ys) (auto simp: set_sink)

lemma foldl_sink_sorted:
  "sorted_wrt (\<lambda>a b. k a \<le> k b) acc \<Longrightarrow>
   sorted_wrt (\<lambda>a b. k a \<le> k b) (foldl (\<lambda>acc x. sink (\<lambda>a b. k a > k b) x acc) acc xs)"
  for k :: "'a \<Rightarrow> int"
  by (induction xs arbitrary: acc) (simp_all add: sink_sorted)

text \<open>A view is in descending order of its key: no element is followed by one with a
  greater key.\<close>

lemma sort_Slice_descending:
  "sorted_wrt (\<lambda>a b. k a \<ge> k b) (sort_Slice (\<lambda>a b. k a > k b) xs)"
  for k :: "'a \<Rightarrow> int"
  using foldl_sink_sorted[of k "[]" xs]
  by (simp add: sort_Slice_def sorted_wrt_rev)

lemma storeRepos_descending:
  "sorted_wrt (\<lambda>a b. forks a \<ge> forks b) (topForks (storeRepos cd repos elms s))"
  "sorted_wrt (\<lambda>a b. updated a \<ge> updated b) (lastUpdated (storeRepos cd repos elms s))"
  "sorted_wrt (\<lambda>a b. openIssues a \<ge> openIssues b) (topOpenIssues (storeRepos cd repos elms s))"
  "sorted_wrt (\<lambda>a b. stars a \<ge> stars b) (topStars (storeRepos cd repos elms s))"
  by (simp_all add: storeRepos_eq sort_Slice_descending)

end
